theory Spec2Isabelle
  imports Main "HOL-Library.Word" "HOL-Library.Multiset"
begin

unbundle bit_operations_syntax

section \<open>Strings and buffers\<close>

text \<open>
  The messaging API is TypeScript on Node.js. A JavaScript string is a sequence of UTF-16 code
  units, a \<open>Buffer\<close> a sequence of bytes. String literals of the source are written with
  \<open>js\<close>, which reads an ASCII literal as code units.
\<close>

type_synonym byte = "8 word"

type_synonym buffer = "8 word list"

type_synonym jsstring = "16 word list"

definition byte_of :: "nat \<Rightarrow> byte" where
  "byte_of n = of_nat n"

definition unit_of :: "nat \<Rightarrow> 16 word" where
  "unit_of n = of_nat n"

definition js :: "string \<Rightarrow> jsstring" where
  "js s = map (\<lambda>c. unit_of (of_char c)) s"

subsection \<open>UTF-8\<close>

text \<open>
  \<open>utf8_encode\<close> is the encoding \<open>'utf8'\<close> of a string as \<open>cipher.update\<close>,
  \<open>hash.update\<close> and \<open>hmac.update\<close> apply it to a string argument: a surrogate pair
  becomes the four bytes of its code point, an unpaired surrogate the three bytes of U+FFFD.
  \<open>utf8_decode\<close> is the decoding of bytes with output encoding \<open>'utf8'\<close>: every maximal
  ill-formed part of the input becomes U+FFFD, and a code point beyond U+FFFF a surrogate pair.
  \<open>well_formed\<close> holds of the strings without unpaired surrogates.
\<close>

definition is_high_surrogate :: "16 word \<Rightarrow> bool" where
  "is_high_surrogate c = (0xD800 \<le> unat c \<and> unat c \<le> 0xDBFF)"

definition is_low_surrogate :: "16 word \<Rightarrow> bool" where
  "is_low_surrogate c = (0xDC00 \<le> unat c \<and> unat c \<le> 0xDFFF)"

definition utf8_bytes :: "nat \<Rightarrow> buffer" where
  "utf8_bytes cp =
     (if cp < 0x80 then [byte_of cp]
      else if cp < 0x800 then [byte_of (0xC0 + cp div 64), byte_of (0x80 + cp mod 64)]
      else if cp < 0x10000 then
        [byte_of (0xE0 + cp div 4096), byte_of (0x80 + cp div 64 mod 64), byte_of (0x80 + cp mod 64)]
      else
        [byte_of (0xF0 + cp div 262144), byte_of (0x80 + cp div 4096 mod 64),
         byte_of (0x80 + cp div 64 mod 64), byte_of (0x80 + cp mod 64)])"

definition surrogate_pair_value :: "16 word \<Rightarrow> 16 word \<Rightarrow> nat" where
  "surrogate_pair_value hi lo = 0x10000 + (unat hi - 0xD800) * 1024 + (unat lo - 0xDC00)"

fun utf8_encode :: "jsstring \<Rightarrow> buffer" where
  "utf8_encode [] = []"
| "utf8_encode (c # cs) =
     (if is_high_surrogate c then
        (case cs of
           [] \<Rightarrow> utf8_bytes 0xFFFD
         | d # ds \<Rightarrow>
             if is_low_surrogate d then utf8_bytes (surrogate_pair_value c d) @ utf8_encode ds
             else utf8_bytes 0xFFFD @ utf8_encode cs)
      else if is_low_surrogate c then utf8_bytes 0xFFFD @ utf8_encode cs
      else utf8_bytes (unat c) @ utf8_encode cs)"

definition utf16_units :: "nat \<Rightarrow> jsstring" where
  "utf16_units cp =
     (if cp < 0x10000 then [unit_of cp]
      else [unit_of (0xD800 + (cp - 0x10000) div 1024), unit_of (0xDC00 + (cp - 0x10000) mod 1024)])"

definition in_range :: "nat \<Rightarrow> nat \<Rightarrow> byte \<Rightarrow> bool" where
  "in_range lo hi b = (lo \<le> unat b \<and> unat b \<le> hi)"

definition replacement :: "16 word" where
  "replacement = 0xFFFD"

fun utf8_decode :: "buffer \<Rightarrow> jsstring" where
  "utf8_decode [] = []"
| "utf8_decode (b # bs) =
     (if unat b < 0x80 then unit_of (unat b) # utf8_decode bs
      else if in_range 0xC2 0xDF b then
        (case bs of
           [] \<Rightarrow> [replacement]
         | c # r \<Rightarrow>
             if in_range 0x80 0xBF c
             then utf16_units ((unat b - 0xC0) * 64 + (unat c - 0x80)) @ utf8_decode r
             else replacement # utf8_decode bs)
      else if in_range 0xE0 0xEF b then
        (case bs of
           [] \<Rightarrow> [replacement]
         | c # r \<Rightarrow>
             if in_range (if unat b = 0xE0 then 0xA0 else 0x80) (if unat b = 0xED then 0x9F else 0xBF) c
             then (case r of
                     [] \<Rightarrow> [replacement]
                   | d # r' \<Rightarrow>
                       if in_range 0x80 0xBF d
                       then utf16_units ((unat b - 0xE0) * 4096 + (unat c - 0x80) * 64 + (unat d - 0x80))
                              @ utf8_decode r'
                       else replacement # utf8_decode r)
             else replacement # utf8_decode bs)
      else if in_range 0xF0 0xF4 b then
        (case bs of
           [] \<Rightarrow> [replacement]
         | c # r \<Rightarrow>
             if in_range (if unat b = 0xF0 then 0x90 else 0x80) (if unat b = 0xF4 then 0x8F else 0xBF) c
             then (case r of
                     [] \<Rightarrow> [replacement]
                   | d # r' \<Rightarrow>
                       if in_range 0x80 0xBF d
                       then (case r' of
                               [] \<Rightarrow> [replacement]
                             | e # r'' \<Rightarrow>
                                 if in_range 0x80 0xBF e
                                 then utf16_units ((unat b - 0xF0) * 262144 + (unat c - 0x80) * 4096
                                                    + (unat d - 0x80) * 64 + (unat e - 0x80))
                                        @ utf8_decode r''
                                 else replacement # utf8_decode r')
                       else replacement # utf8_decode r)
             else replacement # utf8_decode bs)
      else replacement # utf8_decode bs)"

fun well_formed :: "jsstring \<Rightarrow> bool" where
  "well_formed [] = True"
| "well_formed (c # cs) =
     (if is_high_surrogate c then
        (case cs of [] \<Rightarrow> False | d # ds \<Rightarrow> is_low_surrogate d \<and> well_formed ds)
      else \<not> is_low_surrogate c \<and> well_formed cs)"

subsection \<open>Base64\<close>

text \<open>
  \<open>base64_encode\<close> is \<open>buffer.toString('base64')\<close>: the standard alphabet, padded with
  \<open>=\<close>. \<open>base64_decode\<close> is \<open>Buffer.from(string, 'base64')\<close>, which never fails: it
  reads the low byte of every code unit of the string (so it takes U+0141 for \<open>A\<close> and
  U+013D for \<open>=\<close>), stops at the first \<open>=\<close>, skips every character outside the alphabet,
  reads \<open>-\<close> and \<open>_\<close> as \<open>+\<close> and \<open>/\<close>, and drops a last group of fewer than two
  characters.
\<close>

definition pad_char :: "16 word" where
  "pad_char = 0x3D"

definition base64_char :: "nat \<Rightarrow> 16 word" where
  "base64_char n =
     unit_of (if n < 26 then 65 + n else if n < 52 then 71 + n else if n < 62 then n - 4
              else if n = 62 then 43 else 47)"

definition low_byte :: "16 word \<Rightarrow> nat" where
  "low_byte c = unat c mod 256"

definition unbase64 :: "16 word \<Rightarrow> nat option" where
  "unbase64 c =
     (let x = low_byte c in
      if 65 \<le> x \<and> x \<le> 90 then Some (x - 65)
      else if 97 \<le> x \<and> x \<le> 122 then Some (x - 71)
      else if 48 \<le> x \<and> x \<le> 57 then Some (x + 4)
      else if x = 43 \<or> x = 45 then Some 62
      else if x = 47 \<or> x = 95 then Some 63
      else None)"

fun base64_encode :: "buffer \<Rightarrow> jsstring" where
  "base64_encode [] = []"
| "base64_encode [x] =
     [base64_char (unat x div 4), base64_char (unat x mod 4 * 16), pad_char, pad_char]"
| "base64_encode [x, y] =
     [base64_char (unat x div 4), base64_char (unat x mod 4 * 16 + unat y div 16),
      base64_char (unat y mod 16 * 4), pad_char]"
| "base64_encode (x # y # z # r) =
     [base64_char (unat x div 4), base64_char (unat x mod 4 * 16 + unat y div 16),
      base64_char (unat y mod 16 * 4 + unat z div 64), base64_char (unat z mod 64)]
     @ base64_encode r"

fun sextets_to_bytes :: "nat list \<Rightarrow> buffer" where
  "sextets_to_bytes (a # b # c # d # r) =
     [byte_of (a * 4 + b div 16), byte_of (b mod 16 * 16 + c div 4), byte_of (c mod 4 * 64 + d)]
     @ sextets_to_bytes r"
| "sextets_to_bytes [a, b, c] = [byte_of (a * 4 + b div 16), byte_of (b mod 16 * 16 + c div 4)]"
| "sextets_to_bytes [a, b] = [byte_of (a * 4 + b div 16)]"
| "sextets_to_bytes _ = []"

definition base64_sextets :: "jsstring \<Rightarrow> nat list" where
  "base64_sextets s = List.map_filter unbase64 (takeWhile (\<lambda>c. low_byte c \<noteq> 61) s)"

definition base64_decode :: "jsstring \<Rightarrow> buffer" where
  "base64_decode s = sextets_to_bytes (base64_sextets s)"

section \<open>The primitives of the \<open>crypto\<close> module\<close>

subsection \<open>SHA-256 and HMAC\<close>

text \<open>
  \<open>crypto.createHash('sha256')\<close> and \<open>crypto.createHmac('sha256', key)\<close>, on buffers:
  SHA-256 as in FIPS 180-4 (padding, message schedule, 64 rounds per 64-byte block) and HMAC
  as in RFC 2104 with the block size of 64 bytes. The digest is the eight state words written
  big-endian, 32 bytes.
\<close>

definition K256 :: "32 word list" where
  "K256 =
    [0x428A2F98, 0x71374491, 0xB5C0FBCF, 0xE9B5DBA5, 0x3956C25B, 0x59F111F1, 0x923F82A4, 0xAB1C5ED5,
     0xD807AA98, 0x12835B01, 0x243185BE, 0x550C7DC3, 0x72BE5D74, 0x80DEB1FE, 0x9BDC06A7, 0xC19BF174,
     0xE49B69C1, 0xEFBE4786, 0x0FC19DC6, 0x240CA1CC, 0x2DE92C6F, 0x4A7484AA, 0x5CB0A9DC, 0x76F988DA,
     0x983E5152, 0xA831C66D, 0xB00327C8, 0xBF597FC7, 0xC6E00BF3, 0xD5A79147, 0x06CA6351, 0x14292967,
     0x27B70A85, 0x2E1B2138, 0x4D2C6DFC, 0x53380D13, 0x650A7354, 0x766A0ABB, 0x81C2C92E, 0x92722C85,
     0xA2BFE8A1, 0xA81A664B, 0xC24B8B70, 0xC76C51A3, 0xD192E819, 0xD6990624, 0xF40E3585, 0x106AA070,
     0x19A4C116, 0x1E376C08, 0x2748774C, 0x34B0BCB5, 0x391C0CB3, 0x4ED8AA4A, 0x5B9CCA4F, 0x682E6FF3,
     0x748F82EE, 0x78A5636F, 0x84C87814, 0x8CC70208, 0x90BEFFFA, 0xA4506CEB, 0xBEF9A3F7, 0xC67178F2]"

datatype hash_state =
  HashState "32 word" "32 word" "32 word" "32 word" "32 word" "32 word" "32 word" "32 word"

definition sha256_init :: hash_state where
  "sha256_init =
     HashState 0x6A09E667 0xBB67AE85 0x3C6EF372 0xA54FF53A 0x510E527F 0x9B05688C 0x1F83D9AB 0x5BE0CD19"

definition Ch :: "32 word \<Rightarrow> 32 word \<Rightarrow> 32 word \<Rightarrow> 32 word" where
  "Ch x y z = (x AND y) XOR (NOT x AND z)"

definition Maj :: "32 word \<Rightarrow> 32 word \<Rightarrow> 32 word \<Rightarrow> 32 word" where
  "Maj x y z = (x AND y) XOR (x AND z) XOR (y AND z)"

definition Sigma0 :: "32 word \<Rightarrow> 32 word" where
  "Sigma0 x = word_rotr 2 x XOR word_rotr 13 x XOR word_rotr 22 x"

definition Sigma1 :: "32 word \<Rightarrow> 32 word" where
  "Sigma1 x = word_rotr 6 x XOR word_rotr 11 x XOR word_rotr 25 x"

definition sigma0 :: "32 word \<Rightarrow> 32 word" where
  "sigma0 x = word_rotr 7 x XOR word_rotr 18 x XOR drop_bit 3 x"

definition sigma1 :: "32 word \<Rightarrow> 32 word" where
  "sigma1 x = word_rotr 17 x XOR word_rotr 19 x XOR drop_bit 10 x"

definition be32 :: "buffer \<Rightarrow> 32 word" where
  "be32 bs = foldl (\<lambda>w b. push_bit 8 w OR ucast b) 0 (take 4 bs)"

definition word32_bytes :: "32 word \<Rightarrow> buffer" where
  "word32_bytes w = [ucast (drop_bit 24 w), ucast (drop_bit 16 w), ucast (drop_bit 8 w), ucast w]"

definition word64_bytes :: "64 word \<Rightarrow> buffer" where
  "word64_bytes w = map (\<lambda>i. ucast (drop_bit (8 * (7 - i)) w)) [0..<8]"

definition sha256_pad :: "buffer \<Rightarrow> buffer" where
  "sha256_pad m =
     m @ [0x80] @ replicate ((119 - length m mod 64) mod 64) 0 @ word64_bytes (of_nat (8 * length m))"

fun schedule :: "nat \<Rightarrow> 32 word list \<Rightarrow> 32 word list" where
  "schedule 0 w = w"
| "schedule (Suc n) w =
     schedule n (w @ [sigma1 (w ! (length w - 2)) + w ! (length w - 7)
                      + sigma0 (w ! (length w - 15)) + w ! (length w - 16)])"

definition sha256_round :: "hash_state \<Rightarrow> 32 word \<times> 32 word \<Rightarrow> hash_state" where
  "sha256_round s kw =
     (case s of HashState a b c d e f g h \<Rightarrow>
        let t1 = h + Sigma1 e + Ch e f g + fst kw + snd kw;
            t2 = Sigma0 a + Maj a b c
        in HashState (t1 + t2) a b c (d + t1) e f g)"

definition add_state :: "hash_state \<Rightarrow> hash_state \<Rightarrow> hash_state" where
  "add_state s t =
     (case s of HashState a b c d e f g h \<Rightarrow>
      case t of HashState a' b' c' d' e' f' g' h' \<Rightarrow>
        HashState (a + a') (b + b') (c + c') (d + d') (e + e') (f + f') (g + g') (h + h'))"

definition sha256_compress :: "hash_state \<Rightarrow> buffer \<Rightarrow> hash_state" where
  "sha256_compress s block =
     (let w = schedule 48 (map (\<lambda>i. be32 (drop (4 * i) block)) [0..<16])
      in add_state s (foldl sha256_round s (zip K256 w)))"

definition sha256_blocks :: "buffer \<Rightarrow> buffer list" where
  "sha256_blocks m = map (\<lambda>i. take 64 (drop (64 * i) m)) [0..<length m div 64]"

definition state_bytes :: "hash_state \<Rightarrow> buffer" where
  "state_bytes s =
     (case s of HashState a b c d e f g h \<Rightarrow>
        word32_bytes a @ word32_bytes b @ word32_bytes c @ word32_bytes d
        @ word32_bytes e @ word32_bytes f @ word32_bytes g @ word32_bytes h)"

definition sha256 :: "buffer \<Rightarrow> buffer" where
  "sha256 m = state_bytes (foldl sha256_compress sha256_init (sha256_blocks (sha256_pad m)))"

definition hmac_sha256 :: "buffer \<Rightarrow> buffer \<Rightarrow> buffer" where
  "hmac_sha256 key msg =
     (let k = (if 64 < length key then sha256 key else key);
          k0 = k @ replicate (64 - length k) 0
      in sha256 (map (\<lambda>b. b XOR 0x5C) k0 @ sha256 (map (\<lambda>b. b XOR 0x36) k0 @ msg)))"

subsection \<open>AES-256 in Galois/Counter mode\<close>

text \<open>
  \<open>crypto.createCipheriv('aes-256-gcm', key, iv)\<close> and its decipher, on buffers and with no
  additional authenticated data: the AES block cipher of FIPS 197 with a 256-bit key (the
  state is a buffer of 16 bytes, column by column; 14 rounds; 60 round-key words), and the
  mode of NIST SP 800-38D (counter-mode keystream from the incremented pre-counter block, tag
  from GHASH over the ciphertext and its length). Blocks are 128-bit words read big-endian.
\<close>

definition sbox :: "byte list" where
  "sbox =
    [0x63, 0x7c, 0x77, 0x7b, 0xf2, 0x6b, 0x6f, 0xc5, 0x30, 0x01, 0x67, 0x2b, 0xfe, 0xd7, 0xab, 0x76,
     0xca, 0x82, 0xc9, 0x7d, 0xfa, 0x59, 0x47, 0xf0, 0xad, 0xd4, 0xa2, 0xaf, 0x9c, 0xa4, 0x72, 0xc0,
     0xb7, 0xfd, 0x93, 0x26, 0x36, 0x3f, 0xf7, 0xcc, 0x34, 0xa5, 0xe5, 0xf1, 0x71, 0xd8, 0x31, 0x15,
     0x04, 0xc7, 0x23, 0xc3, 0x18, 0x96, 0x05, 0x9a, 0x07, 0x12, 0x80, 0xe2, 0xeb, 0x27, 0xb2, 0x75,
     0x09, 0x83, 0x2c, 0x1a, 0x1b, 0x6e, 0x5a, 0xa0, 0x52, 0x3b, 0xd6, 0xb3, 0x29, 0xe3, 0x2f, 0x84,
     0x53, 0xd1, 0x00, 0xed, 0x20, 0xfc, 0xb1, 0x5b, 0x6a, 0xcb, 0xbe, 0x39, 0x4a, 0x4c, 0x58, 0xcf,
     0xd0, 0xef, 0xaa, 0xfb, 0x43, 0x4d, 0x33, 0x85, 0x45, 0xf9, 0x02, 0x7f, 0x50, 0x3c, 0x9f, 0xa8,
     0x51, 0xa3, 0x40, 0x8f, 0x92, 0x9d, 0x38, 0xf5, 0xbc, 0xb6, 0xda, 0x21, 0x10, 0xff, 0xf3, 0xd2,
     0xcd, 0x0c, 0x13, 0xec, 0x5f, 0x97, 0x44, 0x17, 0xc4, 0xa7, 0x7e, 0x3d, 0x64, 0x5d, 0x19, 0x73,
     0x60, 0x81, 0x4f, 0xdc, 0x22, 0x2a, 0x90, 0x88, 0x46, 0xee, 0xb8, 0x14, 0xde, 0x5e, 0x0b, 0xdb,
     0xe0, 0x32, 0x3a, 0x0a, 0x49, 0x06, 0x24, 0x5c, 0xc2, 0xd3, 0xac, 0x62, 0x91, 0x95, 0xe4, 0x79,
     0xe7, 0xc8, 0x37, 0x6d, 0x8d, 0xd5, 0x4e, 0xa9, 0x6c, 0x56, 0xf4, 0xea, 0x65, 0x7a, 0xae, 0x08,
     0xba, 0x78, 0x25, 0x2e, 0x1c, 0xa6, 0xb4, 0xc6, 0xe8, 0xdd, 0x74, 0x1f, 0x4b, 0xbd, 0x8b, 0x8a,
     0x70, 0x3e, 0xb5, 0x66, 0x48, 0x03, 0xf6, 0x0e, 0x61, 0x35, 0x57, 0xb9, 0x86, 0xc1, 0x1d, 0x9e,
     0xe1, 0xf8, 0x98, 0x11, 0x69, 0xd9, 0x8e, 0x94, 0x9b, 0x1e, 0x87, 0xe9, 0xce, 0x55, 0x28, 0xdf,
     0x8c, 0xa1, 0x89, 0x0d, 0xbf, 0xe6, 0x42, 0x68, 0x41, 0x99, 0x2d, 0x0f, 0xb0, 0x54, 0xbb, 0x16]"

definition SubByte :: "byte \<Rightarrow> byte" where
  "SubByte b = sbox ! unat b"

definition xtime :: "byte \<Rightarrow> byte" where
  "xtime b = (if bit b 7 then push_bit 1 b XOR 0x1B else push_bit 1 b)"

definition SubBytes :: "buffer \<Rightarrow> buffer" where
  "SubBytes s = map SubByte s"

definition ShiftRows :: "buffer \<Rightarrow> buffer" where
  "ShiftRows s = map (\<lambda>i. s ! (i mod 4 + 4 * ((i div 4 + i mod 4) mod 4))) [0..<16]"

definition mix_column :: "byte \<Rightarrow> byte \<Rightarrow> byte \<Rightarrow> byte \<Rightarrow> buffer" where
  "mix_column a0 a1 a2 a3 =
     [xtime a0 XOR (xtime a1 XOR a1) XOR a2 XOR a3,
      a0 XOR xtime a1 XOR (xtime a2 XOR a2) XOR a3,
      a0 XOR a1 XOR xtime a2 XOR (xtime a3 XOR a3),
      (xtime a0 XOR a0) XOR a1 XOR a2 XOR xtime a3]"

definition MixColumns :: "buffer \<Rightarrow> buffer" where
  "MixColumns s =
     concat (map (\<lambda>c. mix_column (s ! (4 * c)) (s ! (4 * c + 1)) (s ! (4 * c + 2)) (s ! (4 * c + 3)))
                 [0..<4])"

definition xor_bytes :: "buffer \<Rightarrow> buffer \<Rightarrow> buffer" where
  "xor_bytes xs ys = map (\<lambda>(x, y). x XOR y) (zip xs ys)"

definition Rcon :: "byte list" where
  "Rcon = [0x01, 0x02, 0x04, 0x08, 0x10, 0x20, 0x40]"

fun expand_words :: "nat \<Rightarrow> buffer list \<Rightarrow> buffer list" where
  "expand_words 0 w = w"
| "expand_words (Suc n) w =
     (let i = length w;
          prev = w ! (i - 1);
          temp = (if i mod 8 = 0
                  then xor_bytes (SubBytes (rotate1 prev)) [Rcon ! (i div 8 - 1), 0, 0, 0]
                  else if i mod 8 = 4 then SubBytes prev
                  else prev)
      in expand_words n (w @ [xor_bytes (w ! (i - 8)) temp]))"

definition KeyExpansion :: "buffer \<Rightarrow> buffer list" where
  "KeyExpansion key = expand_words 52 (map (\<lambda>i. take 4 (drop (4 * i) key)) [0..<8])"

definition round_key :: "buffer list \<Rightarrow> nat \<Rightarrow> buffer" where
  "round_key w r = concat (take 4 (drop (4 * r) w))"

definition aes_round :: "buffer list \<Rightarrow> buffer \<Rightarrow> nat \<Rightarrow> buffer" where
  "aes_round w s r = xor_bytes (MixColumns (ShiftRows (SubBytes s))) (round_key w r)"

definition aes256_encrypt_block :: "buffer \<Rightarrow> buffer \<Rightarrow> buffer" where
  "aes256_encrypt_block key block =
     (let w = KeyExpansion key;
          s = foldl (aes_round w) (xor_bytes block (round_key w 0)) [1..<14]
      in xor_bytes (ShiftRows (SubBytes s)) (round_key w 14))"

definition bytes_block :: "buffer \<Rightarrow> 128 word" where
  "bytes_block bs = foldl (\<lambda>w b. push_bit 8 w OR ucast b) 0 (take 16 (bs @ replicate 16 0))"

definition block_bytes :: "128 word \<Rightarrow> buffer" where
  "block_bytes w = map (\<lambda>i. ucast (drop_bit (8 * (15 - i)) w)) [0..<16]"

definition aes256 :: "buffer \<Rightarrow> 128 word \<Rightarrow> 128 word" where
  "aes256 key x = bytes_block (aes256_encrypt_block key (block_bytes x))"

fun gf_mult_loop :: "nat \<Rightarrow> 128 word \<Rightarrow> 128 word \<Rightarrow> 128 word \<Rightarrow> 128 word" where
  "gf_mult_loop 0 x z v = z"
| "gf_mult_loop (Suc n) x z v =
     gf_mult_loop n x (if bit x n then z XOR v else z)
       (if bit v 0 then drop_bit 1 v XOR push_bit 120 0xE1 else drop_bit 1 v)"

definition gf_mult :: "128 word \<Rightarrow> 128 word \<Rightarrow> 128 word" where
  "gf_mult x y = gf_mult_loop 128 x 0 y"

definition ghash :: "128 word \<Rightarrow> 128 word list \<Rightarrow> 128 word" where
  "ghash h xs = foldl (\<lambda>y x. gf_mult (y XOR x) h) 0 xs"

definition blocks16 :: "buffer \<Rightarrow> 128 word list" where
  "blocks16 bs = map (\<lambda>i. bytes_block (take 16 (drop (16 * i) bs))) [0..<(length bs + 15) div 16]"

definition length_block :: "nat \<Rightarrow> nat \<Rightarrow> 128 word" where
  "length_block alen clen = push_bit 64 (of_nat (8 * alen) AND mask 64) OR (of_nat (8 * clen) AND mask 64)"

definition gcm_j0 :: "128 word \<Rightarrow> buffer \<Rightarrow> 128 word" where
  "gcm_j0 h iv =
     (if length iv = 12 then push_bit 32 (bytes_block (replicate 4 0 @ iv)) OR 1
      else ghash h (blocks16 iv @ [length_block 0 (length iv)]))"

definition inc32 :: "128 word \<Rightarrow> nat \<Rightarrow> 128 word" where
  "inc32 cb i = (cb AND NOT (mask 32)) OR ((cb + of_nat i) AND mask 32)"

definition gctr_keystream :: "buffer \<Rightarrow> 128 word \<Rightarrow> nat \<Rightarrow> buffer" where
  "gctr_keystream key icb n =
     concat (map (\<lambda>i. block_bytes (aes256 key (inc32 icb i))) [0..<(n + 15) div 16])"

definition gctr :: "buffer \<Rightarrow> 128 word \<Rightarrow> buffer \<Rightarrow> buffer" where
  "gctr key icb xs = xor_bytes xs (gctr_keystream key icb (length xs))"

definition gcm_tag :: "buffer \<Rightarrow> buffer \<Rightarrow> buffer \<Rightarrow> buffer" where
  "gcm_tag key iv ct =
     (let h = aes256 key 0
      in block_bytes (aes256 key (gcm_j0 h iv) XOR ghash h (blocks16 ct @ [length_block 0 (length ct)])))"

definition gcm_encrypt :: "buffer \<Rightarrow> buffer \<Rightarrow> buffer \<Rightarrow> buffer" where
  "gcm_encrypt key iv pt = gctr key (inc32 (gcm_j0 (aes256 key 0) iv) 1) pt"

section \<open>Errors\<close>

text \<open>
  Every \<open>throw\<close> of the source and every rejection it can receive from a library is a value
  of \<open>error\<close>: the invalid-key-length error of the encryption utilities; the three errors of
  the decipher (an empty IV, an authentication tag of a length GCM does not allow, a tag that
  does not verify); the error \<open>Not authorized ...\<close> of the message service; a parameter the
  database driver refuses before it sends the request (\<open>ParameterValidation\<close>: an Invalid
  Date or a number outside 32 bits); an error the store raised while it ran the request
  (\<open>RequestError\<close>); and a \<open>TypeError\<close> for a property read on \<open>undefined\<close>.
\<close>

datatype sql_error =
    NotAuthorizedThrown
  | PrimaryKeyViolation
  | ForeignKeyViolation
  | StringTruncation
  | NegativeOffset
  | NonPositiveFetch

datatype error =
    InvalidKeyLength nat
  | InvalidIV
  | InvalidAuthTagLength nat
  | AuthenticationFailure
  | NotAuthorized
  | ParameterValidation
  | RequestError sql_error
  | TypeError

section \<open>Encryption utilities\<close>

text \<open>
  The module \<open>utils/encryption\<close>. \<open>crypto.randomBytes\<close> reads a random source, here the
  function \<open>rng\<close> that gives the bytes it will deliver. A cipher stream with output encoding
  \<open>'base64'\<close> returns from \<open>update\<close> the encoding of the longest prefix of whole
  three-byte groups and from \<open>final\<close> the encoding of the rest; \<open>encryptMessage\<close>
  concatenates the two strings and decodes them again before it appends the tag.
\<close>

definition KEY_LENGTH :: nat where
  "KEY_LENGTH = 32"

definition IV_LENGTH :: nat where
  "IV_LENGTH = 12"

definition TAG_LENGTH :: nat where
  "TAG_LENGTH = 16"

type_synonym rng = "nat \<Rightarrow> byte"

definition randomBytes :: "rng \<Rightarrow> nat \<Rightarrow> buffer" where
  "randomBytes rng n = map rng [0..<n]"

definition decoder_write_base64 :: "buffer \<Rightarrow> jsstring" where
  "decoder_write_base64 out = base64_encode (take (length out - length out mod 3) out)"

definition decoder_end_base64 :: "buffer \<Rightarrow> jsstring" where
  "decoder_end_base64 out = base64_encode (drop (length out - length out mod 3) out)"

record encrypted =
  enc_ciphertext :: jsstring
  enc_iv :: jsstring

definition encryptMessage :: "rng \<Rightarrow> jsstring \<Rightarrow> jsstring \<Rightarrow> error + encrypted" where
  "encryptMessage rng plaintext keyBase64 =
     (let key = base64_decode keyBase64 in
      if length key \<noteq> KEY_LENGTH then Inl (InvalidKeyLength (length key))
      else
        let iv = randomBytes rng IV_LENGTH;
            out = gcm_encrypt key iv (utf8_encode plaintext);
            ciphertext = decoder_write_base64 out @ decoder_end_base64 out;
            authTag = gcm_tag key iv out;
            combined = base64_encode (base64_decode ciphertext @ authTag)
        in Inr \<lparr>enc_ciphertext = combined, enc_iv = base64_encode iv\<rparr>)"

text \<open>
  The decipher: \<open>createDecipheriv\<close> rejects an empty IV, \<open>setAuthTag\<close> a tag whose length
  is none of 4, 8, 12, 13, 14, 15, 16, and \<open>final\<close> a tag that differs from the tag of the
  ciphertext (cut to the length of the tag given). \<open>Buffer.slice(0, -16)\<close> and
  \<open>Buffer.slice(-16)\<close> of a buffer shorter than 16 bytes are the empty buffer and the whole
  buffer.
\<close>

definition valid_gcm_tag_length :: "nat \<Rightarrow> bool" where
  "valid_gcm_tag_length n = (n = 4 \<or> n = 8 \<or> (12 \<le> n \<and> n \<le> 16))"

definition gcm_decrypt :: "buffer \<Rightarrow> buffer \<Rightarrow> buffer \<Rightarrow> buffer \<Rightarrow> error + buffer" where
  "gcm_decrypt key iv ct tag =
     (if iv = [] then Inl InvalidIV
      else if \<not> valid_gcm_tag_length (length tag) then Inl (InvalidAuthTagLength (length tag))
      else if take (length tag) (gcm_tag key iv ct) \<noteq> tag then Inl AuthenticationFailure
      else Inr (gctr key (inc32 (gcm_j0 (aes256 key 0) iv) 1) ct))"

definition decryptMessage :: "jsstring \<Rightarrow> jsstring \<Rightarrow> jsstring \<Rightarrow> error + jsstring" where
  "decryptMessage ciphertextBase64 ivBase64 keyBase64 =
     (let key = base64_decode keyBase64;
          iv = base64_decode ivBase64 in
      if length key \<noteq> KEY_LENGTH then Inl (InvalidKeyLength (length key))
      else
        let combined = base64_decode ciphertextBase64;
            ciphertext = take (length combined - TAG_LENGTH) combined;
            authTag = drop (length combined - TAG_LENGTH) combined
        in case gcm_decrypt key iv ciphertext authTag of
             Inl e \<Rightarrow> Inl e
           | Inr plain \<Rightarrow> Inr (utf8_decode plain))"

section \<open>Key service\<close>

text \<open>
  \<open>KeyService.getConversationKey\<close> reads \<open>process.env.MASTER_ENCRYPTION_KEY\<close>, here its
  first argument (\<open>None\<close> when the variable is not set). An empty string is falsy and takes
  the fallback path like an unset variable. Neither path has a failing branch.
\<close>

definition deriveConversationKey :: "jsstring \<Rightarrow> jsstring \<Rightarrow> jsstring" where
  "deriveConversationKey masterKey conversationId =
     base64_encode (hmac_sha256 (base64_decode masterKey) (utf8_encode conversationId))"

definition getConversationKey :: "jsstring option \<Rightarrow> jsstring \<Rightarrow> jsstring" where
  "getConversationKey MASTER_ENCRYPTION_KEY conversationId =
     (case MASTER_ENCRYPTION_KEY of
        Some masterKey \<Rightarrow>
          if masterKey \<noteq> [] then deriveConversationKey masterKey conversationId
          else take 44 (base64_encode (sha256 (utf8_encode (js ''conversation-key-'' @ conversationId))))
      | None \<Rightarrow> take 44 (base64_encode (sha256 (utf8_encode (js ''conversation-key-'' @ conversationId)))))"

section \<open>Types of the API\<close>

text \<open>
  The interfaces of \<open>types\<close>. Field names carry a prefix, since record fields share one
  name space. A timestamp on the wire is an ISO-8601 string; it is represented by the instant
  it denotes, in milliseconds since the epoch, which is what \<open>new Date(s).getTime()\<close> reads
  from it and what \<open>toISOString\<close> writes. A \<open>date_string\<close> is a string of a request that
  should be a timestamp: \<open>NotADate\<close> stands for the strings \<open>new Date\<close> turns into an
  Invalid Date. The fields of a request body may be absent.
\<close>

record Message =
  m_id :: jsstring
  m_conversationId :: jsstring
  m_senderId :: jsstring
  m_text :: jsstring
  m_createdAt :: int
  m_editedAt :: "int option"
  m_deletedAt :: "int option"
  m_replyToMessageId :: "jsstring option"
  m_senderName :: "jsstring option"
  m_senderAvatar :: "jsstring option"

datatype date_string = DateString int | NotADate

record CreateMessagePayload =
  p_conversationId :: "jsstring option"
  p_text :: "jsstring option"
  p_createdAt :: "date_string option"

record MessageQueryParams =
  q_limit :: "int option"
  q_offset :: "int option"
  q_before :: "jsstring option"
  q_after :: "jsstring option"

record PaginatedResponse =
  r_data :: "Message list"
  r_hasMore :: bool
  r_total :: int

section \<open>The store\<close>

text \<open>
  The tables of \<open>database/schema.sql\<close> with the columns the message service reads or
  writes, each table a list of rows in the order of insertion. Identifiers are compared by
  equality.
\<close>

record user_row =
  Users_Id :: jsstring
  Users_DisplayName :: "jsstring option"
  Users_AvatarUrl :: "jsstring option"

record conversation_row =
  Conversations_Id :: jsstring
  Conversations_UpdatedAt :: int
  Conversations_LastMessageId :: "jsstring option"
  Conversations_LastMessageAt :: "int option"

record participant_row =
  Participants_ConversationId :: jsstring
  Participants_UserId :: jsstring
  Participants_LeftAt :: "int option"

record message_row =
  Messages_Id :: jsstring
  Messages_ConversationId :: jsstring
  Messages_SenderId :: jsstring
  Messages_Ciphertext :: jsstring
  Messages_IV :: jsstring
  Messages_CreatedAt :: int
  Messages_EditedAt :: "int option"
  Messages_DeletedAt :: "int option"
  Messages_ReplyToMessageId :: "jsstring option"

record database =
  Users :: "user_row list"
  Conversations :: "conversation_row list"
  ConversationParticipants :: "participant_row list"
  Messages :: "message_row list"

text \<open>
  JavaScript idioms of the source: the truthiness of an optional string (\<open>undefined\<close>,
  \<open>null\<close> and the empty string are falsy), \<open>x || null\<close>, \<open>n || d\<close> on an optional number
  (\<open>undefined\<close>, \<open>NaN\<close> and 0 are falsy; \<open>NaN\<close>, the value of \<open>parseInt\<close> on a string
  that is no number, is \<open>None\<close> here), and \<open>new Date(s)\<close> (\<open>None\<close> is the Invalid Date,
  which \<open>new Date(undefined)\<close> is too). The parameters of a request are checked before the
  request is sent, as the \<open>tedious\<close> driver of the \<open>mssql\<close> package checks them: a number
  for an \<open>sql.Int\<close> parameter has to fit 32 bits, a date for an \<open>sql.DateTime2\<close> parameter
  has to be valid with a year between 1 and 9999.
\<close>

definition truthy :: "'a list option \<Rightarrow> bool" where
  "truthy s = (case s of None \<Rightarrow> False | Some v \<Rightarrow> v \<noteq> [])"

definition or_null :: "'a list option \<Rightarrow> 'a list option" where
  "or_null s = (if truthy s then s else None)"

definition number_or :: "int option \<Rightarrow> int \<Rightarrow> int" where
  "number_or n d = (case n of None \<Rightarrow> d | Some v \<Rightarrow> if v = 0 then d else v)"

definition new_Date :: "date_string option \<Rightarrow> int option" where
  "new_Date s = (case s of Some (DateString t) \<Rightarrow> Some t | _ \<Rightarrow> None)"

definition sql_Int :: "int \<Rightarrow> bool" where
  "sql_Int n = (- 2147483648 \<le> n \<and> n \<le> 2147483647)"

definition sql_DateTime2 :: "int option \<Rightarrow> bool" where
  "sql_DateTime2 d = (case d of None \<Rightarrow> False | Some t \<Rightarrow> - 62135596800000 \<le> t \<and> t \<le> 253402300799999)"

section \<open>Message service\<close>

text \<open>
  The class \<open>MessageService\<close>. Its SQL is modelled by what the statements select and change
  in the tables.
\<close>

definition isUserAuthorized :: "database \<Rightarrow> jsstring \<Rightarrow> jsstring \<Rightarrow> bool" where
  "isUserAuthorized db conversationId userId =
     list_ex (\<lambda>p. Participants_ConversationId p = conversationId
                  \<and> Participants_UserId p = userId
                  \<and> Participants_LeftAt p = None)
             (ConversationParticipants db)"

text \<open>
  \<open>getMessages\<close>. The message named by \<open>before\<close> (or else by \<open>after\<close>) is looked up
  among all messages; when it exists, its creation time bounds the rows. The query joins each
  message with the user that sent it, keeps the non-deleted rows of the conversation inside the
  boundary, orders them by creation time (rows of equal time in the order of the table) and
  cuts the page with \<open>OFFSET ... ROWS FETCH NEXT ... ROWS ONLY\<close>, which the store refuses for
  a negative offset and for a row count that is not positive.
\<close>

datatype boundary = NoBoundary | BeforeCreatedAt int | AfterCreatedAt int

definition select_CreatedAt :: "database \<Rightarrow> jsstring \<Rightarrow> int option" where
  "select_CreatedAt db messageId =
     map_option Messages_CreatedAt (List.find (\<lambda>m. Messages_Id m = messageId) (Messages db))"

definition resolve_boundary :: "database \<Rightarrow> MessageQueryParams \<Rightarrow> boundary" where
  "resolve_boundary db params =
     (if truthy (q_before params) then
        (case select_CreatedAt db (the (q_before params)) of
           Some t \<Rightarrow> BeforeCreatedAt t
         | None \<Rightarrow> NoBoundary)
      else if truthy (q_after params) then
        (case select_CreatedAt db (the (q_after params)) of
           Some t \<Rightarrow> AfterCreatedAt t
         | None \<Rightarrow> NoBoundary)
      else NoBoundary)"

definition in_boundary :: "boundary \<Rightarrow> int \<Rightarrow> bool" where
  "in_boundary b t =
     (case b of NoBoundary \<Rightarrow> True | BeforeCreatedAt x \<Rightarrow> t < x | AfterCreatedAt x \<Rightarrow> x < t)"

definition join_Users :: "database \<Rightarrow> message_row list \<Rightarrow> (message_row \<times> user_row) list" where
  "join_Users db ms =
     concat (map (\<lambda>m. case List.find (\<lambda>u. Users_Id u = Messages_SenderId m) (Users db) of
                         Some u \<Rightarrow> [(m, u)]
                       | None \<Rightarrow> [])
                 ms)"

definition conversation_messages :: "database \<Rightarrow> jsstring \<Rightarrow> message_row list" where
  "conversation_messages db conversationId =
     filter (\<lambda>m. Messages_ConversationId m = conversationId \<and> Messages_DeletedAt m = None) (Messages db)"

definition select_messages ::
  "database \<Rightarrow> jsstring \<Rightarrow> boundary \<Rightarrow> int \<Rightarrow> int \<Rightarrow> error + (message_row \<times> user_row) list" where
  "select_messages db conversationId b offset limit =
     (if \<not> sql_Int offset \<or> \<not> sql_Int limit then Inl ParameterValidation
      else if offset < 0 then Inl (RequestError NegativeOffset)
      else if limit \<le> 0 then Inl (RequestError NonPositiveFetch)
      else Inr (take (nat limit) (drop (nat offset)
             (sort_key (\<lambda>r. Messages_CreatedAt (fst r))
                (join_Users db
                   (filter (\<lambda>m. in_boundary b (Messages_CreatedAt m))
                      (conversation_messages db conversationId)))))))"

definition could_not_decrypt :: jsstring where
  "could_not_decrypt = js ''[Could not decrypt message]''"

definition decrypt_row :: "jsstring \<Rightarrow> message_row \<times> user_row \<Rightarrow> Message" where
  "decrypt_row encryptionKey row =
     \<lparr>m_id = Messages_Id (fst row),
      m_conversationId = Messages_ConversationId (fst row),
      m_senderId = Messages_SenderId (fst row),
      m_text = (case decryptMessage (Messages_Ciphertext (fst row)) (Messages_IV (fst row)) encryptionKey of
                  Inr plain \<Rightarrow> plain
                | Inl e \<Rightarrow> could_not_decrypt),
      m_createdAt = Messages_CreatedAt (fst row),
      m_editedAt = Messages_EditedAt (fst row),
      m_deletedAt = Messages_DeletedAt (fst row),
      m_replyToMessageId = or_null (Messages_ReplyToMessageId (fst row)),
      m_senderName = or_null (Users_DisplayName (snd row)),
      m_senderAvatar = or_null (Users_AvatarUrl (snd row))\<rparr>"

definition getMessages ::
  "jsstring option \<Rightarrow> database \<Rightarrow> jsstring \<Rightarrow> jsstring \<Rightarrow> MessageQueryParams
     \<Rightarrow> error + PaginatedResponse" where
  "getMessages MASTER_ENCRYPTION_KEY db conversationId userId params =
     (let limit = min (number_or (q_limit params) 50) 100;
          offset = number_or (q_offset params) 0 in
      if \<not> isUserAuthorized db conversationId userId then Inl NotAuthorized
      else
        case select_messages db conversationId (resolve_boundary db params) offset limit of
          Inl e \<Rightarrow> Inl e
        | Inr recordset \<Rightarrow>
            let total = int (length (conversation_messages db conversationId));
                hasMore = offset + int (length recordset) < total;
                encryptionKey = getConversationKey MASTER_ENCRYPTION_KEY conversationId
            in Inr \<lparr>r_data = map (decrypt_row encryptionKey) recordset,
                    r_hasMore = hasMore,
                    r_total = total\<rparr>)"

text \<open>
  \<open>createMessage\<close>. The function returns, besides its result, the store it leaves behind and
  the steps it performed, in order: the call of the key service, the call of
  \<open>encryptMessage\<close>, and the statements the store ran.

  The batch runs in one request: it checks the authorization and, for a sender that is not an
  active participant, rolls back and throws; otherwise it inserts the message, updates the
  conversation and commits. The insert fails for an id, conversation id, sender id or IV longer
  than its column, for an id that exists, and for a conversation or sender that does not
  exist. Such an error ends the statement, not the batch (\<open>XACT_ABORT\<close> is off): the update
  and the commit still run, and the request is rejected with the error when the batch is over.

  \<open>message_includes_Not_authorized\<close> is the test \<open>error.message.includes('Not authorized')\<close>
  of the \<open>catch\<close> blocks. The messages of the other errors do not contain the phrase: the
  only value of a call they can quote is the message id, which the route generates with
  \<open>randomUUID\<close>.
\<close>

datatype step =
    DeriveKey jsstring
  | Encrypt
  | CheckAuthorization jsstring jsstring
  | InsertMessage jsstring
  | UpdateConversation jsstring
  | SelectCreated jsstring

record 'a effect =
  steps :: "step list"
  store :: database
  outcome :: "error + 'a"

definition insert_violation :: "database \<Rightarrow> message_row \<Rightarrow> sql_error option" where
  "insert_violation db row =
     (if 255 < length (Messages_Id row) \<or> 255 < length (Messages_ConversationId row)
         \<or> 255 < length (Messages_SenderId row) \<or> 255 < length (Messages_IV row)
      then Some StringTruncation
      else if list_ex (\<lambda>m. Messages_Id m = Messages_Id row) (Messages db) then Some PrimaryKeyViolation
      else if \<not> list_ex (\<lambda>c. Conversations_Id c = Messages_ConversationId row) (Conversations db)
              \<or> \<not> list_ex (\<lambda>u. Users_Id u = Messages_SenderId row) (Users db)
      then Some ForeignKeyViolation
      else None)"

definition update_conversation :: "database \<Rightarrow> jsstring \<Rightarrow> jsstring \<Rightarrow> int \<Rightarrow> int \<Rightarrow> database" where
  "update_conversation db conversationId messageId createdAt now =
     db\<lparr>Conversations :=
          map (\<lambda>c. if Conversations_Id c = conversationId
                    then c\<lparr>Conversations_LastMessageId := Some messageId,
                           Conversations_LastMessageAt := Some createdAt,
                           Conversations_UpdatedAt := now\<rparr>
                    else c)
              (Conversations db)\<rparr>"

definition send_batch ::
  "database \<Rightarrow> int \<Rightarrow> message_row \<Rightarrow> step list \<times> database \<times> sql_error option" where
  "send_batch db now row =
     (if \<not> isUserAuthorized db (Messages_ConversationId row) (Messages_SenderId row)
      then ([CheckAuthorization (Messages_ConversationId row) (Messages_SenderId row)], db,
            Some NotAuthorizedThrown)
      else
        let violation = insert_violation db row;
            inserted = (if violation = None then db\<lparr>Messages := Messages db @ [row]\<rparr> else db)
        in ([CheckAuthorization (Messages_ConversationId row) (Messages_SenderId row),
             InsertMessage (Messages_Id row), UpdateConversation (Messages_ConversationId row)],
            update_conversation inserted (Messages_ConversationId row) (Messages_Id row)
              (Messages_CreatedAt row) now,
            violation))"

definition message_includes_Not_authorized :: "error \<Rightarrow> bool" where
  "message_includes_Not_authorized e = (e = NotAuthorized \<or> e = RequestError NotAuthorizedThrown)"

definition select_created :: "database \<Rightarrow> jsstring \<Rightarrow> (message_row \<times> user_row) option" where
  "select_created db messageId =
     (case join_Users db (filter (\<lambda>m. Messages_Id m = messageId) (Messages db)) of
        [] \<Rightarrow> None
      | row # _ \<Rightarrow> Some row)"

definition createMessage ::
  "jsstring option \<Rightarrow> rng \<Rightarrow> int \<Rightarrow> database \<Rightarrow> jsstring \<Rightarrow> jsstring \<Rightarrow> jsstring
     \<Rightarrow> CreateMessagePayload \<Rightarrow> Message effect" where
  "createMessage MASTER_ENCRYPTION_KEY rng now db messageId conversationId senderId payload =
     (let encryptionKey = getConversationKey MASTER_ENCRYPTION_KEY conversationId in
      case p_text payload of
        None \<Rightarrow> \<lparr>steps = [DeriveKey conversationId], store = db, outcome = Inl TypeError\<rparr>
      | Some plaintext \<Rightarrow>
          (case encryptMessage rng plaintext encryptionKey of
             Inl e \<Rightarrow> \<lparr>steps = [DeriveKey conversationId], store = db, outcome = Inl e\<rparr>
           | Inr enc \<Rightarrow>
               if \<not> sql_DateTime2 (new_Date (p_createdAt payload))
               then \<lparr>steps = [DeriveKey conversationId, Encrypt], store = db,
                     outcome = Inl ParameterValidation\<rparr>
               else
                 let row = \<lparr>Messages_Id = messageId,
                            Messages_ConversationId = conversationId,
                            Messages_SenderId = senderId,
                            Messages_Ciphertext = enc_ciphertext enc,
                            Messages_IV = enc_iv enc,
                            Messages_CreatedAt = the (new_Date (p_createdAt payload)),
                            Messages_EditedAt = None,
                            Messages_DeletedAt = None,
                            Messages_ReplyToMessageId = None\<rparr>
                 in case send_batch db now row of
                      (batch, db', Some e) \<Rightarrow>
                        \<lparr>steps = [DeriveKey conversationId, Encrypt] @ batch,
                         store = db',
                         outcome =
                           (if message_includes_Not_authorized (RequestError e)
                            then Inl NotAuthorized
                            else Inl (RequestError e))\<rparr>
                    | (batch, db', None) \<Rightarrow>
                        \<lparr>steps = [DeriveKey conversationId, Encrypt] @ batch @ [SelectCreated messageId],
                         store = db',
                         outcome =
                           (case select_created db' messageId of
                              None \<Rightarrow> Inl TypeError
                            | Some r \<Rightarrow>
                                Inr \<lparr>m_id = Messages_Id (fst r),
                                     m_conversationId = Messages_ConversationId (fst r),
                                     m_senderId = Messages_SenderId (fst r),
                                     m_text = plaintext,
                                     m_createdAt = Messages_CreatedAt (fst r),
                                     m_editedAt = None,
                                     m_deletedAt = None,
                                     m_replyToMessageId = None,
                                     m_senderName = or_null (Users_DisplayName (snd r)),
                                     m_senderAvatar = or_null (Users_AvatarUrl (snd r))\<rparr>)\<rparr>))"

section \<open>The route \<open>POST /api/messages\<close>\<close>

text \<open>
  The handler of \<open>router.post('/')\<close>. A request is read through the user id that
  \<open>optionalAuth\<close> may have set, the \<open>senderId\<close> of the body, the header \<open>x-user-id\<close>
  and the body's payload; the message id is the value of \<open>randomUUID()\<close>.
\<close>

record post_request =
  req_user_id :: "jsstring option"
  req_body_senderId :: "jsstring option"
  req_header_x_user_id :: "jsstring option"
  req_body :: CreateMessagePayload

datatype response_json =
    InvalidMessageFormat
  | NotAuthorizedMessage
  | InternalServerError
  | CreatedMessage Message

record response =
  res_status :: nat
  res_json :: response_json

definition post_messages ::
  "jsstring option \<Rightarrow> rng \<Rightarrow> int \<Rightarrow> database \<Rightarrow> jsstring \<Rightarrow> post_request \<Rightarrow> response effect" where
  "post_messages MASTER_ENCRYPTION_KEY rng now db randomUUID req =
     (let senderId =
            (case req_user_id req of
               Some u \<Rightarrow> u
             | None \<Rightarrow>
                 (case req_body_senderId req of
                    Some s \<Rightarrow> s
                  | None \<Rightarrow>
                      (case req_header_x_user_id req of
                         Some h \<Rightarrow> h
                       | None \<Rightarrow> js ''user-123'')));
          payload = req_body req in
      if \<not> truthy (p_conversationId payload) \<or> \<not> truthy (p_text payload)
      then \<lparr>steps = [], store = db,
            outcome = Inr \<lparr>res_status = 400, res_json = InvalidMessageFormat\<rparr>\<rparr>
      else
        let created = createMessage MASTER_ENCRYPTION_KEY rng now db randomUUID
                        (the (p_conversationId payload)) senderId payload
        in \<lparr>steps = steps created, store = store created,
             outcome =
               (case outcome created of
                  Inr message \<Rightarrow> Inr \<lparr>res_status = 201, res_json = CreatedMessage message\<rparr>
                | Inl e \<Rightarrow>
                    if message_includes_Not_authorized e
                    then Inr \<lparr>res_status = 403, res_json = NotAuthorizedMessage\<rparr>
                    else Inr \<lparr>res_status = 500, res_json = InternalServerError\<rparr>)\<rparr>)"

section \<open>The message list of \<open>MessagingPanel\<close>\<close>

text \<open>
  The component keeps the messages of the open conversation in the state \<open>messages\<close> and
  changes it by the updater functions below. \<open>Array.prototype.sort\<close> is stable, so sorting
  with the comparator \<open>new Date(a.createdAt).getTime() - new Date(b.createdAt).getTime()\<close> is
  the stable sort by creation time. \<open>on_new_message\<close> is the callback the component
  registers with \<open>onSubscribeNewMessage\<close>, called for each message the poll delivers.
  \<open>handleSend\<close> adds the optimistic message \<open>handleSend_optimistic\<close> builds for the trimmed
  input, and when \<open>onSend\<close> has settled updates the list as \<open>handleSend_settled\<close> does:
  the optimistic entry is replaced by the message returned (if one with an id was returned), or
  removed when \<open>onSend\<close> threw.
\<close>

definition by_createdAt :: "Message list \<Rightarrow> Message list" where
  "by_createdAt ms = sort_key m_createdAt ms"

definition is_duplicate :: "Message list \<Rightarrow> Message \<Rightarrow> bool" where
  "is_duplicate prev msg =
     list_ex (\<lambda>m. m_conversationId m = m_conversationId msg
                  \<and> m_senderId m = m_senderId msg
                  \<and> m_text m = m_text msg
                  \<and> \<bar>m_createdAt m - m_createdAt msg\<bar> < 5000)
             prev"

definition on_new_message :: "Message list \<Rightarrow> Message \<Rightarrow> Message list" where
  "on_new_message prev msg =
     (if list_ex (\<lambda>m. m_id m = m_id msg) prev then prev
      else if is_duplicate prev msg then prev
      else by_createdAt (prev @ [msg]))"

definition add_optimistic :: "Message list \<Rightarrow> Message \<Rightarrow> Message list" where
  "add_optimistic prev local = by_createdAt (prev @ [local])"

definition replace_optimistic :: "Message list \<Rightarrow> jsstring \<Rightarrow> Message \<Rightarrow> Message list" where
  "replace_optimistic prev tempId createdMessage =
     by_createdAt (map (\<lambda>msg. if m_id msg = tempId then createdMessage else msg) prev)"

definition remove_optimistic :: "Message list \<Rightarrow> jsstring \<Rightarrow> Message list" where
  "remove_optimistic prev tempId = filter (\<lambda>msg. m_id msg \<noteq> tempId) prev"

datatype send_result = Returned "Message option" | Thrown

definition handleSend_optimistic ::
  "jsstring \<Rightarrow> jsstring \<Rightarrow> jsstring \<Rightarrow> int \<Rightarrow> jsstring \<Rightarrow> Message" where
  "handleSend_optimistic currentUserId conversationId tempId now text_input =
     \<lparr>m_id = tempId, m_conversationId = conversationId, m_senderId = currentUserId,
      m_text = text_input, m_createdAt = now, m_editedAt = None, m_deletedAt = None,
      m_replyToMessageId = None, m_senderName = None, m_senderAvatar = None\<rparr>"

definition handleSend_settled :: "Message list \<Rightarrow> jsstring \<Rightarrow> send_result \<Rightarrow> Message list" where
  "handleSend_settled prev tempId r =
     (case r of
        Returned (Some createdMessage) \<Rightarrow>
          if m_id createdMessage \<noteq> [] then replace_optimistic prev tempId createdMessage else prev
      | Returned None \<Rightarrow> prev
      | Thrown \<Rightarrow> remove_optimistic prev tempId)"

section \<open>Constraints of the schema and preconditions of requests\<close>

text \<open>
  \<open>page_ok\<close>: the paging parameters the driver and the store accept. \<open>FK_Messages_Sender\<close>:
  the foreign key from a message to its sender. \<open>participants_schema\<close>: the foreign keys of
  \<open>ConversationParticipants\<close> and the width of its \<open>NVARCHAR(255)\<close> columns.
  \<open>well_formed_send\<close>: a payload with a text and a timestamp the driver accepts, and a
  message id that fits its column and is not in use. \<open>decrypt_of_encrypt\<close> decrypts what
  \<open>encryptMessage\<close> returned, under the same key.
\<close>

definition page_ok :: "MessageQueryParams \<Rightarrow> bool" where
  "page_ok params =
     (0 \<le> number_or (q_offset params) 0 \<and> number_or (q_offset params) 0 \<le> 2147483647
      \<and> 0 < number_or (q_limit params) 50)"

definition FK_Messages_Sender :: "database \<Rightarrow> bool" where
  "FK_Messages_Sender db =
     list_all (\<lambda>m. list_ex (\<lambda>u. Users_Id u = Messages_SenderId m) (Users db)) (Messages db)"

definition participants_schema :: "database \<Rightarrow> bool" where
  "participants_schema db =
     list_all (\<lambda>p. list_ex (\<lambda>c. Conversations_Id c = Participants_ConversationId p) (Conversations db)
                   \<and> list_ex (\<lambda>u. Users_Id u = Participants_UserId p) (Users db)
                   \<and> length (Participants_ConversationId p) \<le> 255
                   \<and> length (Participants_UserId p) \<le> 255)
              (ConversationParticipants db)"

definition well_formed_send :: "database \<Rightarrow> jsstring \<Rightarrow> CreateMessagePayload \<Rightarrow> bool" where
  "well_formed_send db messageId payload =
     (p_text payload \<noteq> None
      \<and> sql_DateTime2 (new_Date (p_createdAt payload))
      \<and> length messageId \<le> 255
      \<and> \<not> list_ex (\<lambda>m. Messages_Id m = messageId) (Messages db))"

definition decrypt_of_encrypt :: "rng \<Rightarrow> jsstring \<Rightarrow> jsstring \<Rightarrow> error + jsstring" where
  "decrypt_of_encrypt rng p k =
     (case encryptMessage rng p k of
        Inl e \<Rightarrow> Inl e
      | Inr enc \<Rightarrow> decryptMessage (enc_ciphertext enc) (enc_iv enc) k)"

section \<open>Sample data\<close>

text \<open>
  A random source that delivers zero bytes, a key of 32 zero bytes and one of 6 bytes, a master
  secret, and a store with the conversation \<open>c1\<close> whose only participant is \<open>alice\<close>,
  empty or holding a message whose IV is empty.
\<close>

definition zero_rng :: rng where
  "zero_rng = (\<lambda>i. 0)"

definition demo_db :: database where
  "demo_db =
     \<lparr>Users = [\<lparr>Users_Id = js ''alice'', Users_DisplayName = Some (js ''Alice''), Users_AvatarUrl = None\<rparr>],
      Conversations = [\<lparr>Conversations_Id = js ''c1'', Conversations_UpdatedAt = 0,
                        Conversations_LastMessageId = None, Conversations_LastMessageAt = None\<rparr>],
      ConversationParticipants =
        [\<lparr>Participants_ConversationId = js ''c1'', Participants_UserId = js ''alice'',
          Participants_LeftAt = None\<rparr>],
      Messages = []\<rparr>"

definition hi_payload :: CreateMessagePayload where
  "hi_payload = \<lparr>p_conversationId = Some (js ''c1''), p_text = Some (js ''hi''),
                 p_createdAt = Some (DateString 1000)\<rparr>"


definition zero_key :: jsstring where
  "zero_key = base64_encode (replicate 32 0)"

definition short_key :: jsstring where
  "short_key = js ''c2VjcmV0''"

definition wide_key :: jsstring where
  "wide_key = replicate 43 0x0141"

definition cut_key :: jsstring where
  "cut_key = replicate 20 0x41 @ [0x013D] @ replicate 23 0x41"

definition secret_master :: jsstring where
  "secret_master = js ''c2VjcmV0''"

definition default_params :: MessageQueryParams where
  "default_params = \<lparr>q_limit = None, q_offset = None, q_before = None, q_after = None\<rparr>"

definition stored_row :: message_row where
  "stored_row =
     \<lparr>Messages_Id = js ''m0'', Messages_ConversationId = js ''c1'', Messages_SenderId = js ''alice'',
      Messages_Ciphertext = js ''AAAA'', Messages_IV = [], Messages_CreatedAt = 2000,
      Messages_EditedAt = None, Messages_DeletedAt = None, Messages_ReplyToMessageId = None\<rparr>"

definition one_message_db :: database where
  "one_message_db = demo_db\<lparr>Messages := [stored_row]\<rparr>"

definition sample_row :: "string \<Rightarrow> string \<Rightarrow> int \<Rightarrow> int option \<Rightarrow> message_row" where
  "sample_row i c t d =
     \<lparr>Messages_Id = js i, Messages_ConversationId = js c, Messages_SenderId = js ''alice'',
      Messages_Ciphertext = [], Messages_IV = [], Messages_CreatedAt = t, Messages_EditedAt = None,
      Messages_DeletedAt = d, Messages_ReplyToMessageId = None\<rparr>"

definition thread_db :: database where
  "thread_db = demo_db\<lparr>Messages :=
     [sample_row ''m1'' ''c1'' 300 None, sample_row ''m2'' ''c1'' 100 None,
      sample_row ''m3'' ''c1'' 200 (Some 250), sample_row ''m4'' ''c1'' 400 None,
      sample_row ''m5'' ''c1'' 50 None, sample_row ''m6'' ''c2'' 150 None,
      sample_row ''m7'' ''c1'' 500 None]\<rparr>"

definition after_params :: MessageQueryParams where
  "after_params = \<lparr>q_limit = Some 2, q_offset = Some 1, q_before = None, q_after = Some (js ''m5'')\<rparr>"

definition before_params :: MessageQueryParams where
  "before_params = \<lparr>q_limit = Some 500, q_offset = None, q_before = Some (js ''m4''), q_after = None\<rparr>"

definition limit_params :: "int \<Rightarrow> MessageQueryParams" where
  "limit_params n = \<lparr>q_limit = Some n, q_offset = None, q_before = None, q_after = None\<rparr>"

definition sent_db :: database where
  "sent_db = store (createMessage None zero_rng 5 one_message_db (js ''m1'') (js ''c1'') (js ''alice'')
                      hi_payload)"

definition no_createdAt_request :: post_request where
  "no_createdAt_request =
     \<lparr>req_user_id = None, req_body_senderId = None, req_header_x_user_id = Some (js ''alice''),
      req_body = \<lparr>p_conversationId = Some (js ''c1''), p_text = Some (js ''hi''), p_createdAt = None\<rparr>\<rparr>"

definition local_hi :: Message where
  "local_hi = handleSend_optimistic (js ''alice'') (js ''c1'') (js ''temp-1'') 1000 (js ''hi'')"

definition server_hi :: Message where
  "server_hi = local_hi\<lparr>m_id := js ''m1'', m_createdAt := 1200\<rparr>"

definition later_hello :: Message where
  "later_hello = local_hi\<lparr>m_id := js ''m2'', m_text := js ''hello'', m_createdAt := 500\<rparr>"

section \<open>UTF-8 and Base64 round trips\<close>

lemma unat_byte_of: "n < 256 \<Longrightarrow> unat (byte_of n) = n"
  by (simp add: byte_of_def unat_of_nat)

lemma unat_unit_of: "n < 65536 \<Longrightarrow> unat (unit_of n) = n"
  by (simp add: unit_of_def unat_of_nat)

lemma unit_of_unat: "unit_of (unat c) = c"
  by (simp add: unit_of_def)

lemma unat_unit_bound: "unat (c :: 16 word) < 65536"
  using unsigned_less [of c] by simp

lemma utf8_decode_bytes1:
  assumes "cp < 0x80"
  shows "utf8_decode (utf8_bytes cp @ rest) = utf16_units cp @ utf8_decode rest"
  using assms by (simp add: utf8_bytes_def utf16_units_def unat_byte_of)

lemma utf8_decode_bytes2:
  assumes "0x80 \<le> cp" "cp < 0x800"
  shows "utf8_decode (utf8_bytes cp @ rest) = utf16_units cp @ utf8_decode rest"
proof -
  define a where "a = cp div 64"
  define b where "b = cp mod 64"
  have d: "cp = a * 64 + b" "b < 64"
    by (simp_all add: a_def b_def)
  have r1: "2 \<le> a" "a \<le> 31"
    using assms d by linarith+
  have b1: "unat (byte_of (0xC0 + a)) = 0xC0 + a"
    using r1 by (intro unat_byte_of) linarith
  have b2: "unat (byte_of (0x80 + b)) = 0x80 + b"
    using d(2) by (intro unat_byte_of) linarith
  have bytes: "utf8_bytes cp = [byte_of (0xC0 + a), byte_of (0x80 + b)]"
    using assms by (simp add: utf8_bytes_def a_def b_def)
  have "utf8_decode ([byte_of (0xC0 + a), byte_of (0x80 + b)] @ rest)
          = utf16_units (a * 64 + b) @ utf8_decode rest"
    using r1 d(2) by (simp add: in_range_def b1 b2)
  then show ?thesis
    using bytes d(1) by simp
qed

lemma digits64:
  fixes cp :: nat
  obtains a b c where "cp = a * 4096 + b * 64 + c" "b < 64" "c < 64"
    "cp div 4096 = a" "cp div 64 mod 64 = b" "cp mod 64 = c"
proof -
  have "cp div 4096 = cp div 64 div 64"
    by (simp add: div_mult2_eq)
  moreover have "cp = cp div 64 * 64 + cp mod 64"
    by simp
  moreover have "cp div 64 = cp div 64 div 64 * 64 + cp div 64 mod 64"
    by simp
  ultimately have "cp = (cp div 4096) * 4096 + (cp div 64 mod 64) * 64 + cp mod 64"
    by linarith
  then show thesis
    using that [of "cp div 4096" "cp div 64 mod 64" "cp mod 64"] by simp
qed

lemma utf8_decode_bytes3:
  assumes "0x800 \<le> cp" "cp < 0x10000" "\<not> (0xD800 \<le> cp \<and> cp \<le> 0xDFFF)"
  shows "utf8_decode (utf8_bytes cp @ rest) = utf16_units cp @ utf8_decode rest"
proof -
  obtain a b c where d: "cp = a * 4096 + b * 64 + c" "b < 64" "c < 64"
    and e: "cp div 4096 = a" "cp div 64 mod 64 = b" "cp mod 64 = c"
    by (rule digits64)
  have r1: "a \<le> 15" and lo: "a = 0 \<Longrightarrow> 32 \<le> b" and hi: "a = 13 \<Longrightarrow> b \<le> 31"
    using assms d by linarith+
  have b1: "unat (byte_of (0xE0 + a)) = 0xE0 + a"
    using r1 by (intro unat_byte_of) linarith
  have b2: "unat (byte_of (0x80 + b)) = 0x80 + b"
    using d(2) by (intro unat_byte_of) linarith
  have b3: "unat (byte_of (0x80 + c)) = 0x80 + c"
    using d(3) by (intro unat_byte_of) linarith
  have bytes: "utf8_bytes cp = [byte_of (0xE0 + a), byte_of (0x80 + b), byte_of (0x80 + c)]"
    using assms e by (simp add: utf8_bytes_def)
  have "utf8_decode ([byte_of (0xE0 + a), byte_of (0x80 + b), byte_of (0x80 + c)] @ rest)
          = utf16_units (a * 4096 + b * 64 + c) @ utf8_decode rest"
    using r1 lo hi d(2,3) by (simp add: in_range_def b1 b2 b3)
  then show ?thesis
    using bytes d(1) by simp
qed

lemma utf8_decode_bytes4:
  assumes "0x10000 \<le> cp" "cp < 0x110000"
  shows "utf8_decode (utf8_bytes cp @ rest) = utf16_units cp @ utf8_decode rest"
proof -
  obtain q b c where d: "cp = q * 4096 + b * 64 + c" "b < 64" "c < 64"
    and e: "cp div 4096 = q" "cp div 64 mod 64 = b" "cp mod 64 = c"
    by (rule digits64)
  define a where "a = q div 64"
  define b' where "b' = q mod 64"
  have q: "q = a * 64 + b'" "b' < 64"
    by (simp_all add: a_def b'_def)
  have e': "cp div 262144 = a" "cp div 4096 mod 64 = b'"
    using e(1) by (simp_all add: a_def b'_def div_mult2_eq [of cp 4096 64, simplified])
  have r1: "a \<le> 4" and lo: "a = 0 \<Longrightarrow> 16 \<le> b'" and hi: "a = 4 \<Longrightarrow> b' \<le> 15"
    using assms d q by linarith+
  have b1: "unat (byte_of (0xF0 + a)) = 0xF0 + a"
    using r1 by (intro unat_byte_of) linarith
  have b2: "unat (byte_of (0x80 + b')) = 0x80 + b'"
    using q(2) by (intro unat_byte_of) linarith
  have b3: "unat (byte_of (0x80 + b)) = 0x80 + b"
    using d(2) by (intro unat_byte_of) linarith
  have b4: "unat (byte_of (0x80 + c)) = 0x80 + c"
    using d(3) by (intro unat_byte_of) linarith
  have bytes: "utf8_bytes cp =
      [byte_of (0xF0 + a), byte_of (0x80 + b'), byte_of (0x80 + b), byte_of (0x80 + c)]"
    using assms e e' by (simp add: utf8_bytes_def)
  have v: "cp = a * 262144 + b' * 4096 + b * 64 + c"
    using d(1) q(1) by linarith
  have "utf8_decode ([byte_of (0xF0 + a), byte_of (0x80 + b'), byte_of (0x80 + b), byte_of (0x80 + c)] @ rest)
          = utf16_units (a * 262144 + b' * 4096 + b * 64 + c) @ utf8_decode rest"
    using r1 lo hi d(2,3) q(2) by (simp add: in_range_def b1 b2 b3 b4)
  then show ?thesis
    using bytes v by simp
qed

lemma utf16_units_unat: "utf16_units (unat (c :: 16 word)) = [c]"
  using unat_unit_bound [of c] by (simp add: utf16_units_def unit_of_unat)

lemma utf16_units_pair:
  assumes "is_high_surrogate c" "is_low_surrogate d"
  shows "utf16_units (surrogate_pair_value c d) = [c, d]"
proof -
  define h where "h = unat c - 0xD800"
  define l where "l = unat d - 0xDC00"
  have hc: "unat c = 0xD800 + h" "h < 1024"
    using assms(1) unfolding is_high_surrogate_def h_def by linarith+
  have ld: "unat d = 0xDC00 + l" "l < 1024"
    using assms(2) unfolding is_low_surrogate_def l_def by linarith+
  have "unit_of (0xD800 + h) = c" "unit_of (0xDC00 + l) = d"
    using hc(1) ld(1) unit_of_unat by metis+
  then show ?thesis
    using hc ld by (simp add: utf16_units_def surrogate_pair_value_def)
qed

lemma surrogate_pair_value_range:
  assumes "is_high_surrogate c" "is_low_surrogate d"
  shows "0x10000 \<le> surrogate_pair_value c d \<and> surrogate_pair_value c d < 0x110000"
  using assms unfolding is_high_surrogate_def is_low_surrogate_def surrogate_pair_value_def
  by linarith

lemma utf8_decode_bytes_unit:
  assumes "\<not> is_high_surrogate c" "\<not> is_low_surrogate c"
  shows "utf8_decode (utf8_bytes (unat c) @ rest) = c # utf8_decode rest"
proof -
  have nsur: "\<not> (0xD800 \<le> unat c \<and> unat c \<le> 0xDFFF)"
    using assms by (auto simp: is_high_surrogate_def is_low_surrogate_def)
  consider "unat c < 0x80" | "0x80 \<le> unat c" "unat c < 0x800" | "0x800 \<le> unat c"
    by linarith
  then have "utf8_decode (utf8_bytes (unat c) @ rest) = utf16_units (unat c) @ utf8_decode rest"
  proof cases
    case 1 then show ?thesis by (rule utf8_decode_bytes1)
  next
    case 2 then show ?thesis by (rule utf8_decode_bytes2)
  next
    case 3 then show ?thesis using unat_unit_bound [of c] nsur by (intro utf8_decode_bytes3) auto
  qed
  then show ?thesis by (simp add: utf16_units_unat)
qed

lemma utf8_round_trip:
  "well_formed s \<Longrightarrow> utf8_decode (utf8_encode s) = s"
proof (induction s rule: well_formed.induct)
  case 1
  then show ?case by simp
next
  case (2 c cs)
  show ?case
  proof (cases "is_high_surrogate c")
    case True
    with "2.prems" obtain d ds where cs: "cs = d # ds" and d: "is_low_surrogate d" and wf: "well_formed ds"
      by (auto split: list.splits)
    have "utf8_decode (utf8_encode ds) = ds"
      using "2.IH"(1) True cs wf by simp
    then show ?thesis
      using True cs d surrogate_pair_value_range [OF True d]
      by (simp add: utf8_decode_bytes4 utf16_units_pair)
  next
    case False
    with "2.prems" have nl: "\<not> is_low_surrogate c" and wf: "well_formed cs"
      by simp_all
    have "utf8_decode (utf8_encode cs) = cs"
      using "2.IH"(2) False wf by simp
    then show ?thesis
      using False nl by (simp add: utf8_decode_bytes_unit)
  qed
qed

lemma unat_base64_char:
  "n < 64 \<Longrightarrow> unat (base64_char n) =
     (if n < 26 then 65 + n else if n < 52 then 71 + n else if n < 62 then n - 4
      else if n = 62 then 43 else 47)"
  unfolding base64_char_def by (intro unat_unit_of) auto

lemma low_byte_base64_char:
  "n < 64 \<Longrightarrow> low_byte (base64_char n) =
     (if n < 26 then 65 + n else if n < 52 then 71 + n else if n < 62 then n - 4
      else if n = 62 then 43 else 47)"
  unfolding low_byte_def by (simp only: unat_base64_char) auto

lemma unbase64_base64_char: "n < 64 \<Longrightarrow> unbase64 (base64_char n) = Some n"
  unfolding unbase64_def Let_def by (simp only: low_byte_base64_char) auto

lemma base64_char_not_pad: "n < 64 \<Longrightarrow> low_byte (base64_char n) \<noteq> 61"
  by (auto simp add: low_byte_base64_char)

lemma low_byte_pad_char: "low_byte pad_char = 61"
  by (simp add: low_byte_def pad_char_def)

lemma base64_sextets_pad: "base64_sextets (pad_char # s) = []"
  by (simp add: base64_sextets_def List.map_filter_simps low_byte_pad_char)

lemma base64_sextets_Nil: "base64_sextets [] = []"
  by (simp add: base64_sextets_def List.map_filter_simps)

lemma base64_sextets_char: "n < 64 \<Longrightarrow> base64_sextets (base64_char n # s) = n # base64_sextets s"
  by (simp add: base64_sextets_def List.map_filter_simps base64_char_not_pad unbase64_base64_char)

lemma unat_byte_bound: "unat (x :: byte) < 256"
  using unsigned_less [of x] by simp

lemma byte_of_unat: "byte_of (unat x) = x"
  by (simp add: byte_of_def)

lemma base64_group3:
  fixes x y z :: byte
  shows "byte_of (unat x div 4 * 4 + (unat x mod 4 * 16 + unat y div 16) div 16) = x"
    and "byte_of ((unat x mod 4 * 16 + unat y div 16) mod 16 * 16 + (unat y mod 16 * 4 + unat z div 64) div 4) = y"
    and "byte_of ((unat y mod 16 * 4 + unat z div 64) mod 4 * 64 + unat z mod 64) = z"
proof -
  have y16: "unat y div 16 < 16" and z64: "unat z div 64 < 4"
    using unat_byte_bound [of y] unat_byte_bound [of z] by (simp_all add: less_mult_imp_div_less)
  have "unat x div 4 * 4 + (unat x mod 4 * 16 + unat y div 16) div 16 = unat x"
    using y16 by simp
  then show "byte_of (unat x div 4 * 4 + (unat x mod 4 * 16 + unat y div 16) div 16) = x"
    by (simp only: byte_of_unat)
  have "(unat x mod 4 * 16 + unat y div 16) mod 16 * 16 + (unat y mod 16 * 4 + unat z div 64) div 4 = unat y"
    using y16 z64 by simp
  then show "byte_of ((unat x mod 4 * 16 + unat y div 16) mod 16 * 16 + (unat y mod 16 * 4 + unat z div 64) div 4) = y"
    by (simp only: byte_of_unat)
  have "(unat y mod 16 * 4 + unat z div 64) mod 4 * 64 + unat z mod 64 = unat z"
    using z64 by simp
  then show "byte_of ((unat y mod 16 * 4 + unat z div 64) mod 4 * 64 + unat z mod 64) = z"
    by (simp only: byte_of_unat)
qed

lemma sextet_bounds:
  fixes x y z :: byte
  shows "unat x div 4 < 64" "unat x mod 4 * 16 < 64" "unat x mod 4 * 16 + unat y div 16 < 64"
    "unat y mod 16 * 4 < 64" "unat y mod 16 * 4 + unat z div 64 < 64" "unat z mod 64 < 64"
proof -
  have x4: "unat x mod 4 < 4" and y16: "unat y mod 16 < 16"
    by simp_all
  have yd: "unat y div 16 < 16" and zd: "unat z div 64 < 4"
    using unat_byte_bound [of y] unat_byte_bound [of z] by (simp_all add: less_mult_imp_div_less)
  show "unat x div 4 < 64"
    using unat_byte_bound [of x] by (simp add: less_mult_imp_div_less)
  show "unat x mod 4 * 16 < 64" "unat x mod 4 * 16 + unat y div 16 < 64"
    using x4 yd by linarith+
  show "unat y mod 16 * 4 < 64" "unat y mod 16 * 4 + unat z div 64 < 64"
    using y16 zd by linarith+
  show "unat z mod 64 < 64"
    by simp
qed

lemma base64_round_trip: "base64_decode (base64_encode bs) = bs"
proof (induction bs rule: base64_encode.induct)
  case 1
  show ?case by (simp add: base64_decode_def base64_sextets_Nil)
next
  case (2 x)
  have "unat x div 4 * 4 + unat x mod 4 * 16 div 16 = unat x"
    by simp
  then have "byte_of (unat x div 4 * 4 + unat x mod 4 * 16 div 16) = x"
    by (simp only: byte_of_unat)
  then show ?case
    by (simp add: base64_decode_def base64_sextets_char base64_sextets_pad sextet_bounds)
next
  case (3 x y)
  have "byte_of (unat x div 4 * 4 + (unat x mod 4 * 16 + unat y div 16) div 16) = x"
    by (rule base64_group3)
  moreover have "byte_of ((unat x mod 4 * 16 + unat y div 16) mod 16 * 16 + unat y mod 16 * 4 div 4) = y"
    using base64_group3(2) [of x y 0] by simp
  ultimately show ?case
    by (simp add: base64_decode_def base64_sextets_char base64_sextets_pad sextet_bounds)
next
  case (4 x y z r)
  have "base64_sextets (base64_encode (x # y # z # r)) =
      unat x div 4 # (unat x mod 4 * 16 + unat y div 16) # (unat y mod 16 * 4 + unat z div 64)
        # unat z mod 64 # base64_sextets (base64_encode r)"
    by (simp only: base64_encode.simps append_Cons append_Nil base64_sextets_char sextet_bounds)
  then have "base64_decode (base64_encode (x # y # z # r)) =
      [byte_of (unat x div 4 * 4 + (unat x mod 4 * 16 + unat y div 16) div 16),
       byte_of ((unat x mod 4 * 16 + unat y div 16) mod 16 * 16 + (unat y mod 16 * 4 + unat z div 64) div 4),
       byte_of ((unat y mod 16 * 4 + unat z div 64) mod 4 * 64 + unat z mod 64)]
      @ base64_decode (base64_encode r)"
    by (simp only: base64_decode_def sextets_to_bytes.simps)
  also have "\<dots> = [x, y, z] @ r"
    by (simp only: base64_group3 "4.IH")
  finally show ?case
    by simp
qed

section \<open>Lengths of digests, tags and keystreams\<close>

lemma length_sha256: "length (sha256 m) = 32"
  by (simp add: sha256_def state_bytes_def word32_bytes_def split: hash_state.split)

lemma length_hmac_sha256: "length (hmac_sha256 k m) = 32"
  by (simp add: hmac_sha256_def Let_def length_sha256)

lemma sextets_to_bytes_group:
  "sextets_to_bytes (a # b # c # d # r) =
     [byte_of (a * 4 + b div 16), byte_of (b mod 16 * 16 + c div 4), byte_of (c mod 4 * 64 + d)]
     @ sextets_to_bytes r"
  by simp

lemma base64_decode_encode_append:
  "length xs mod 3 = 0 \<Longrightarrow> base64_decode (base64_encode xs @ s) = xs @ base64_decode s"
proof (induction xs rule: base64_encode.induct)
  case 1
  show ?case by simp
next
  case (2 x)
  then show ?case by simp
next
  case (3 x y)
  then show ?case by simp
next
  case (4 x y z r)
  then have r: "length r mod 3 = 0"
    by (simp add: mod_Suc split: if_splits)
  have "base64_sextets (base64_encode (x # y # z # r) @ s) =
      unat x div 4 # (unat x mod 4 * 16 + unat y div 16) # (unat y mod 16 * 4 + unat z div 64)
        # unat z mod 64 # base64_sextets (base64_encode r @ s)"
    by (simp only: base64_encode.simps append_Cons append_Nil base64_sextets_char sextet_bounds)
  then have "base64_decode (base64_encode (x # y # z # r) @ s) =
      [byte_of (unat x div 4 * 4 + (unat x mod 4 * 16 + unat y div 16) div 16),
       byte_of ((unat x mod 4 * 16 + unat y div 16) mod 16 * 16 + (unat y mod 16 * 4 + unat z div 64) div 4),
       byte_of ((unat y mod 16 * 4 + unat z div 64) mod 4 * 64 + unat z mod 64)]
      @ base64_decode (base64_encode r @ s)"
    by (simp only: base64_decode_def sextets_to_bytes_group)
  also have "\<dots> = [x, y, z] @ (r @ base64_decode s)"
    by (simp only: base64_group3 "4.IH" [OF r])
  finally show ?case
    by simp
qed

lemma decoder_base64_round_trip:
  "base64_decode (decoder_write_base64 out @ decoder_end_base64 out) = out"
proof -
  define m where "m = length out - length out mod 3"
  have "m \<le> length out"
    by (simp add: m_def)
  moreover have "m mod 3 = 0"
    unfolding m_def by (metis minus_mod_eq_mult_div mod_mult_self1_is_0)
  ultimately have "length (take m out) mod 3 = 0"
    by simp
  then have "base64_decode (base64_encode (take m out) @ base64_encode (drop m out))
      = take m out @ base64_decode (base64_encode (drop m out))"
    by (rule base64_decode_encode_append)
  then show ?thesis
    by (simp add: decoder_write_base64_def decoder_end_base64_def m_def base64_round_trip)
qed

lemma length_block_bytes: "length (block_bytes w) = 16"
  by (simp add: block_bytes_def)

lemma length_gcm_tag: "length (gcm_tag key iv ct) = 16"
  by (simp add: gcm_tag_def Let_def length_block_bytes)

lemma length_concat_blocks:
  "length (concat (map (\<lambda>i. block_bytes (f i)) is)) = 16 * length is"
  by (induction "is") (simp_all add: length_block_bytes)

lemma length_gctr_keystream: "length (gctr_keystream key icb n) = 16 * ((n + 15) div 16)"
  by (simp add: gctr_keystream_def length_concat_blocks)

lemma gctr_keystream_covers: "n \<le> length (gctr_keystream key icb n)"
  unfolding length_gctr_keystream by arith

lemma xor_bytes_involution:
  "length xs \<le> length ks \<Longrightarrow> xor_bytes (xor_bytes xs ks) ks = xs"
proof (induction xs arbitrary: ks)
  case Nil
  show ?case by (simp add: xor_bytes_def)
next
  case (Cons x xs)
  then obtain k ks' where ks: "ks = k # ks'"
    by (cases ks) auto
  with Cons.prems have "length xs \<le> length ks'"
    by simp
  then have "xor_bytes (xor_bytes xs ks') ks' = xs"
    by (rule Cons.IH)
  then show ?case
    by (simp add: ks xor_bytes_def xor.assoc)
qed

lemma length_xor_bytes: "length (xor_bytes xs ks) = min (length xs) (length ks)"
  by (simp add: xor_bytes_def)

lemma length_gctr: "length (gctr key icb xs) = length xs"
  using gctr_keystream_covers [of "length xs" key icb]
  by (simp add: gctr_def length_xor_bytes)

lemma gctr_involution: "gctr key icb (gctr key icb xs) = xs"
proof -
  have "gctr key icb (gctr key icb xs) =
      xor_bytes (xor_bytes xs (gctr_keystream key icb (length xs))) (gctr_keystream key icb (length xs))"
    by (simp add: gctr_def [of key icb "gctr key icb xs"] length_gctr) (simp add: gctr_def)
  then show ?thesis
    by (simp add: xor_bytes_involution gctr_keystream_covers)
qed

lemma length_randomBytes: "length (randomBytes rng n) = n"
  by (simp add: randomBytes_def)

lemma gcm_decrypt_encrypt:
  assumes "iv \<noteq> []"
  shows "gcm_decrypt key iv (gcm_encrypt key iv pt) (gcm_tag key iv (gcm_encrypt key iv pt)) = Inr pt"
  using assms
  by (simp add: gcm_decrypt_def length_gcm_tag valid_gcm_tag_length_def gcm_encrypt_def gctr_involution)

section \<open>Encryption utilities and key service\<close>

lemma encryptMessage_invalid_key:
  "length (base64_decode keyBase64) \<noteq> KEY_LENGTH \<Longrightarrow>
   encryptMessage rng plaintext keyBase64 = Inl (InvalidKeyLength (length (base64_decode keyBase64)))"
  by (simp add: encryptMessage_def)

lemma decryptMessage_invalid_key:
  "length (base64_decode keyBase64) \<noteq> KEY_LENGTH \<Longrightarrow>
   decryptMessage ciphertextBase64 ivBase64 keyBase64 = Inl (InvalidKeyLength (length (base64_decode keyBase64)))"
  by (simp add: decryptMessage_def)

lemma encryptMessage_valid_key:
  assumes "length (base64_decode keyBase64) = KEY_LENGTH"
  shows "encryptMessage rng plaintext keyBase64 =
    Inr \<lparr>enc_ciphertext =
           base64_encode (gcm_encrypt (base64_decode keyBase64) (randomBytes rng IV_LENGTH) (utf8_encode plaintext)
             @ gcm_tag (base64_decode keyBase64) (randomBytes rng IV_LENGTH)
                 (gcm_encrypt (base64_decode keyBase64) (randomBytes rng IV_LENGTH) (utf8_encode plaintext))),
         enc_iv = base64_encode (randomBytes rng IV_LENGTH)\<rparr>"
  using assms by (simp add: encryptMessage_def Let_def decoder_base64_round_trip)

lemma decryptMessage_not_key_error:
  assumes "length (base64_decode keyBase64) = KEY_LENGTH"
  shows "decryptMessage ciphertextBase64 ivBase64 keyBase64 \<noteq> Inl (InvalidKeyLength n)"
  using assms
  by (auto simp: decryptMessage_def Let_def gcm_decrypt_def split: sum.splits if_splits)

lemma decrypt_encrypt:
  assumes "length (base64_decode keyBase64) = KEY_LENGTH"
    and "encryptMessage rng plaintext keyBase64 = Inr e"
  shows "decryptMessage (enc_ciphertext e) (enc_iv e) keyBase64 = Inr (utf8_decode (utf8_encode plaintext))"
proof -
  define key where "key = base64_decode keyBase64"
  define iv where "iv = randomBytes rng IV_LENGTH"
  define ct where "ct = gcm_encrypt key iv (utf8_encode plaintext)"
  define tag where "tag = gcm_tag key iv ct"
  have e: "e = \<lparr>enc_ciphertext = base64_encode (ct @ tag), enc_iv = base64_encode iv\<rparr>"
    using assms(2) unfolding encryptMessage_valid_key [OF assms(1)] key_def iv_def ct_def tag_def
    by simp
  have iv: "iv \<noteq> []"
    using length_randomBytes [of rng IV_LENGTH] by (auto simp: iv_def IV_LENGTH_def)
  have tag: "length tag = 16"
    by (simp add: tag_def length_gcm_tag)
  have "gcm_decrypt key iv ct tag = Inr (utf8_encode plaintext)"
    unfolding tag_def ct_def by (rule gcm_decrypt_encrypt [OF iv])
  then show ?thesis
    using assms(1) tag by (simp add: decryptMessage_def e base64_round_trip key_def [symmetric] TAG_LENGTH_def)
qed

lemma length_base64_encode: "length (base64_encode bs) = 4 * ((length bs + 2) div 3)"
proof (induction bs rule: base64_encode.induct)
  case (4 x y z r)
  have "(length r + 5) div 3 = (length r + 2) div 3 + 1"
    by arith
  with 4 show ?case
    by (simp add: add.commute)
qed simp_all

lemma base64_encode_inj: "base64_encode a = base64_encode b \<Longrightarrow> a = b"
  by (metis base64_round_trip)

lemma take_44_digest: "length d = 32 \<Longrightarrow> take 44 (base64_encode d) = base64_encode d"
  by (simp add: length_base64_encode)

lemma getConversationKey_cases:
  "getConversationKey env conversationId =
     (if truthy env then base64_encode (hmac_sha256 (base64_decode (the env)) (utf8_encode conversationId))
      else base64_encode (sha256 (utf8_encode (js ''conversation-key-'' @ conversationId))))"
  by (simp add: getConversationKey_def truthy_def deriveConversationKey_def take_44_digest length_sha256
      split: option.split)

lemma length_getConversationKey:
  "length (base64_decode (getConversationKey env conversationId)) = KEY_LENGTH"
  by (simp add: getConversationKey_cases base64_round_trip length_sha256 length_hmac_sha256 KEY_LENGTH_def)

section \<open>Reading a page of messages\<close>


lemma select_messages_ok:
  assumes "page_ok params"
  shows "select_messages db c b (number_or (q_offset params) 0) (min (number_or (q_limit params) 50) 100) =
     Inr (take (nat (min (number_or (q_limit params) 50) 100)) (drop (nat (number_or (q_offset params) 0))
            (sort_key (\<lambda>r. Messages_CreatedAt (fst r))
               (join_Users db (filter (\<lambda>m. in_boundary b (Messages_CreatedAt m)) (conversation_messages db c))))))"
  using assms by (simp add: select_messages_def page_ok_def sql_Int_def min_def)

lemma select_messages_Inr:
  assumes "select_messages db c b offset limit = Inr rows"
  shows "rows = take (nat limit) (drop (nat offset)
            (sort_key (\<lambda>r. Messages_CreatedAt (fst r))
               (join_Users db (filter (\<lambda>m. in_boundary b (Messages_CreatedAt m)) (conversation_messages db c)))))"
    and "0 \<le> offset" and "0 < limit"
  using assms by (auto simp: select_messages_def split: if_splits)

lemma getMessages_Inr:
  assumes "getMessages env db c u params = Inr r"
  obtains rows where
    "isUserAuthorized db c u"
    "select_messages db c (resolve_boundary db params) (number_or (q_offset params) 0)
       (min (number_or (q_limit params) 50) 100) = Inr rows"
    "r_data r = map (decrypt_row (getConversationKey env c)) rows"
    "r_total r = int (length (conversation_messages db c))"
    "r_hasMore r = (number_or (q_offset params) 0 + int (length rows) < int (length (conversation_messages db c)))"
  using assms by (auto simp: getMessages_def Let_def split: if_splits sum.splits)

lemma getMessages_authorized:
  assumes "isUserAuthorized db c u"
    and "select_messages db c (resolve_boundary db params) (number_or (q_offset params) 0)
       (min (number_or (q_limit params) 50) 100) = Inr rows"
  shows "getMessages env db c u params =
     Inr \<lparr>r_data = map (decrypt_row (getConversationKey env c)) rows,
          r_hasMore = (number_or (q_offset params) 0 + int (length rows) < int (length (conversation_messages db c))),
          r_total = int (length (conversation_messages db c))\<rparr>"
  using assms by (simp add: getMessages_def Let_def)

lemma set_join_Users: "(m, u) \<in> set (join_Users db ms) \<Longrightarrow> m \<in> set ms"
  by (auto simp: join_Users_def split: option.splits)

lemma insort_key_map:
  "map g (insort_key (\<lambda>x. f (g x)) x xs) = insort_key f (g x) (map g xs)"
  by (induction xs) simp_all

lemma sort_key_map: "map g (sort_key (\<lambda>x. f (g x)) xs) = sort_key f (map g xs)"
  by (induction xs) (simp_all add: insort_key_map)

lemma find_user_Some:
  "list_ex (\<lambda>u. Users_Id u = s) us \<Longrightarrow> \<exists>u. List.find (\<lambda>u. Users_Id u = s) us = Some u"
  by (induction us) auto

lemma map_fst_join_Users:
  "list_all (\<lambda>m. list_ex (\<lambda>u. Users_Id u = Messages_SenderId m) (Users db)) ms \<Longrightarrow>
   map fst (join_Users db ms) = ms"
proof (induction ms)
  case Nil
  show ?case by (simp add: join_Users_def)
next
  case (Cons m ms)
  then obtain u where "List.find (\<lambda>u. Users_Id u = Messages_SenderId m) (Users db) = Some u"
    using find_user_Some by fastforce
  moreover have "map fst (join_Users db ms) = ms"
    using Cons by simp
  ultimately show ?case
    by (simp add: join_Users_def)
qed

lemma page_rows_sorted:
  "sorted (map (\<lambda>r. Messages_CreatedAt (fst r)) (take l (drop k (sort_key (\<lambda>r. Messages_CreatedAt (fst r)) xs))))"
proof -
  have "sorted (map (\<lambda>r. Messages_CreatedAt (fst r)) (sort_key (\<lambda>r. Messages_CreatedAt (fst r)) xs))"
    by (rule sorted_sort_key)
  then show ?thesis
    by (simp add: take_map [symmetric] drop_map [symmetric] sorted_wrt_take sorted_wrt_drop)
qed

lemma m_createdAt_decrypt_row: "m_createdAt (decrypt_row k row) = Messages_CreatedAt (fst row)"
  by (simp add: decrypt_row_def)

lemma m_id_decrypt_row: "m_id (decrypt_row k row) = Messages_Id (fst row)"
  by (simp add: decrypt_row_def)

lemma m_text_decrypt_row:
  "m_text (decrypt_row k row) =
     (case decryptMessage (Messages_Ciphertext (fst row)) (Messages_IV (fst row)) k of
        Inr plain \<Rightarrow> plain | Inl e \<Rightarrow> could_not_decrypt)"
  by (simp add: decrypt_row_def)

lemma m_conversationId_decrypt_row: "m_conversationId (decrypt_row k row) = Messages_ConversationId (fst row)"
  by (simp add: decrypt_row_def)

lemma m_deletedAt_decrypt_row: "m_deletedAt (decrypt_row k row) = Messages_DeletedAt (fst row)"
  by (simp add: decrypt_row_def)

section \<open>Round trip of the encryption utilities (C1), key length (C7)\<close>

lemma length_zero_key: "length (base64_decode zero_key) = KEY_LENGTH"
  by (simp add: zero_key_def base64_round_trip KEY_LENGTH_def)

lemma unat_unit_of_char: "unat (unit_of (of_char c)) = of_char c"
  by (intro unat_unit_of) (simp add: order_less_trans [OF nat_of_char_less_256])

lemma length_short_key: "length (base64_decode short_key) = 6"
  unfolding short_key_def by code_simp

lemma decrypt_of_encrypt_valid_key:
  assumes "length (base64_decode k) = KEY_LENGTH"
  shows "decrypt_of_encrypt rng p k = Inr (utf8_decode (utf8_encode p))"
proof -
  obtain enc where enc: "encryptMessage rng p k = Inr enc"
    using encryptMessage_valid_key [OF assms] by blast
  show ?thesis
    using decrypt_encrypt [OF assms enc] by (simp add: decrypt_of_encrypt_def enc)
qed

text \<open>
  Claim C1 (as amended). For every plaintext string without unpaired surrogates and every
  base64 key that decodes to exactly 32 bytes, decrypting what \<open>encryptMessage\<close> returned
  (its ciphertext and iv, under the same key) gives the plaintext back, whatever 12 bytes the
  random source delivered for the IV.
\<close>

theorem round_trip_well_formed:
  assumes "well_formed p" and "length (base64_decode k) = KEY_LENGTH"
  shows "decrypt_of_encrypt rng p k = Inr p"
  using decrypt_of_encrypt_valid_key [OF assms(2)] utf8_round_trip [OF assms(1)] by simp

lemma well_formed_ascii: "well_formed (js s)"
proof (induction s)
  case Nil
  show ?case by (simp add: js_def)
next
  case (Cons c s)
  have "of_char c < (256 :: nat)"
    by (rule nat_of_char_less_256)
  then have "\<not> is_high_surrogate (unit_of (of_char c))" "\<not> is_low_surrogate (unit_of (of_char c))"
    unfolding is_high_surrogate_def is_low_surrogate_def unat_unit_of_char by linarith+
  with Cons show ?case
    by (simp add: js_def)
qed

lemma length_wide_key: "length (base64_decode wide_key) = 32"
  unfolding wide_key_def by code_simp

text \<open>
  The hypotheses of C1 hold for the plaintext \<open>hi\<close> under the all-zero key, and under the key
  of 43 code units U+0141, which \<open>Buffer.from\<close> reads as 43 times \<open>A\<close>: 32 bytes.
\<close>

theorem round_trip_well_formed_witness:
  "well_formed (js ''hi'') \<and> length (base64_decode zero_key) = KEY_LENGTH
   \<and> decrypt_of_encrypt zero_rng (js ''hi'') zero_key = Inr (js ''hi'')
   \<and> length (base64_decode wide_key) = KEY_LENGTH
   \<and> decrypt_of_encrypt zero_rng (js ''hi'') wide_key = Inr (js ''hi'')"
  using round_trip_well_formed [of "js ''hi''" zero_key zero_rng]
    round_trip_well_formed [of "js ''hi''" wide_key zero_rng]
  by (simp add: well_formed_ascii length_zero_key length_wide_key KEY_LENGTH_def)

lemma utf8_encode_lone_surrogate: "utf8_encode [0xD800] = utf8_bytes 0xFFFD"
  by (simp add: is_high_surrogate_def)

lemma utf8_encode_replacement: "utf8_encode [0xFFFD] = utf8_bytes 0xFFFD"
  by (simp add: is_high_surrogate_def is_low_surrogate_def)

lemma utf8_decode_replacement: "utf8_decode (utf8_bytes 0xFFFD) = [0xFFFD]"
  using utf8_decode_bytes3 [of "0xFFFD" "[]"] by (simp add: utf16_units_def unit_of_def)

text \<open>
  Claim C1 as stated ranges over every string. A string may hold an unpaired surrogate
  (\<open>"\\uD800"\<close>, which \<open>JSON.parse\<close> produces from a request body); the cipher receives
  its UTF-8 encoding, where the unpaired surrogate has become U+FFFD, so decryption returns
  \<open>"\\uFFFD"\<close> and not the plaintext.
\<close>

theorem round_trip_lone_surrogate:
  "length (base64_decode zero_key) = KEY_LENGTH
   \<and> decrypt_of_encrypt zero_rng [0xD800] zero_key = Inr [0xFFFD]
   \<and> decrypt_of_encrypt zero_rng [0xD800] zero_key \<noteq> Inr [0xD800]"
  by (simp only: decrypt_of_encrypt_valid_key [OF length_zero_key] length_zero_key
      utf8_encode_lone_surrogate utf8_decode_replacement) simp

text \<open>
  Claim C7. \<open>encryptMessage\<close> and \<open>decryptMessage\<close> both fail with the invalid-key-length
  error whenever the base64-decoded key is not exactly 32 bytes long, and neither fails with
  that error when it is.
\<close>

theorem invalid_key_length_exactly:
  "(length (base64_decode keyBase64) \<noteq> KEY_LENGTH \<longrightarrow>
      encryptMessage rng plaintext keyBase64 = Inl (InvalidKeyLength (length (base64_decode keyBase64)))
      \<and> decryptMessage ciphertextBase64 ivBase64 keyBase64
          = Inl (InvalidKeyLength (length (base64_decode keyBase64))))
   \<and> (length (base64_decode keyBase64) = KEY_LENGTH \<longrightarrow>
      (\<forall>n. encryptMessage rng plaintext keyBase64 \<noteq> Inl (InvalidKeyLength n))
      \<and> (\<forall>n. decryptMessage ciphertextBase64 ivBase64 keyBase64 \<noteq> Inl (InvalidKeyLength n)))"
  by (simp add: encryptMessage_invalid_key decryptMessage_invalid_key encryptMessage_valid_key
      decryptMessage_not_key_error)

lemma length_cut_key: "length (base64_decode cut_key) = 15"
  unfolding cut_key_def by code_simp

text \<open>
  Both hypotheses of C7 are met: a key of 6 bytes is refused, the all-zero key of 32 bytes is
  not. Of two keys with code units above U+00FF, the one of 43 units U+0141 is read as 43
  times \<open>A\<close>, which are 32 bytes, and is accepted; the one whose 21st unit is U+013D ends there
  like a key with \<open>=\<close> in that place, after 15 bytes, and is refused.
\<close>

theorem invalid_key_length_exactly_witness:
  "length (base64_decode short_key) \<noteq> KEY_LENGTH
   \<and> encryptMessage zero_rng (js ''hi'') short_key = Inl (InvalidKeyLength 6)
   \<and> decryptMessage [] [] short_key = Inl (InvalidKeyLength 6)
   \<and> length (base64_decode zero_key) = KEY_LENGTH
   \<and> (\<forall>n. encryptMessage zero_rng (js ''hi'') zero_key \<noteq> Inl (InvalidKeyLength n))
   \<and> (\<forall>n. decryptMessage [] [] zero_key \<noteq> Inl (InvalidKeyLength n))
   \<and> length (base64_decode wide_key) = KEY_LENGTH
   \<and> (\<forall>n. encryptMessage zero_rng (js ''hi'') wide_key \<noteq> Inl (InvalidKeyLength n))
   \<and> (\<forall>n. decryptMessage [] [] wide_key \<noteq> Inl (InvalidKeyLength n))
   \<and> length (base64_decode cut_key) \<noteq> KEY_LENGTH
   \<and> encryptMessage zero_rng (js ''hi'') cut_key = Inl (InvalidKeyLength 15)
   \<and> decryptMessage [] [] cut_key = Inl (InvalidKeyLength 15)"
  using invalid_key_length_exactly [of short_key zero_rng "js ''hi''" "[]" "[]"]
    invalid_key_length_exactly [of zero_key zero_rng "js ''hi''" "[]" "[]"]
    invalid_key_length_exactly [of wide_key zero_rng "js ''hi''" "[]" "[]"]
    invalid_key_length_exactly [of cut_key zero_rng "js ''hi''" "[]" "[]"]
  by (simp add: length_short_key length_zero_key length_wide_key length_cut_key KEY_LENGTH_def)

section \<open>Derived keys (C2)\<close>

lemma utf8_encode_inj:
  assumes "well_formed a" "well_formed b" "utf8_encode a = utf8_encode b"
  shows "a = b"
  using assms by (metis utf8_round_trip)

lemma js_prefix_well_formed:
  "well_formed c \<Longrightarrow> well_formed (js s @ c)"
proof (induction s)
  case Nil
  then show ?case by (simp add: js_def)
next
  case (Cons x s)
  have "of_char x < (256 :: nat)"
    by (rule nat_of_char_less_256)
  then have "\<not> is_high_surrogate (unit_of (of_char x))" "\<not> is_low_surrogate (unit_of (of_char x))"
    unfolding is_high_surrogate_def is_low_surrogate_def unat_unit_of_char by linarith+
  with Cons show ?case
    by (simp add: js_def)
qed

text \<open>
  Claim C2 (as amended). \<open>getConversationKey\<close> is a function of the master secret and the
  conversation id alone: equal ids give equal keys. Two ids give the same key exactly when the
  digests of their UTF-8 encodings agree (HMAC-SHA256 under the master secret, or SHA-256 of the
  prefixed id on the fallback path). Ids without unpaired surrogates that differ have different
  UTF-8 encodings, so for them a shared key is a collision of the digest.
\<close>

theorem conversation_key_function_of_digest:
  "(truthy env \<longrightarrow>
      (getConversationKey env c1 = getConversationKey env c2 \<longleftrightarrow>
         hmac_sha256 (base64_decode (the env)) (utf8_encode c1)
           = hmac_sha256 (base64_decode (the env)) (utf8_encode c2)))
   \<and> (\<not> truthy env \<longrightarrow>
      (getConversationKey env c1 = getConversationKey env c2 \<longleftrightarrow>
         sha256 (utf8_encode (js ''conversation-key-'' @ c1))
           = sha256 (utf8_encode (js ''conversation-key-'' @ c2))))
   \<and> (c1 = c2 \<longrightarrow> getConversationKey env c1 = getConversationKey env c2)
   \<and> (well_formed c1 \<and> well_formed c2 \<and> c1 \<noteq> c2 \<longrightarrow>
        utf8_encode c1 \<noteq> utf8_encode c2
        \<and> utf8_encode (js ''conversation-key-'' @ c1) \<noteq> utf8_encode (js ''conversation-key-'' @ c2))"
proof (intro conjI impI)
  assume "truthy env"
  then show "getConversationKey env c1 = getConversationKey env c2 \<longleftrightarrow>
      hmac_sha256 (base64_decode (the env)) (utf8_encode c1)
        = hmac_sha256 (base64_decode (the env)) (utf8_encode c2)"
    by (auto simp: getConversationKey_cases dest: base64_encode_inj)
next
  assume "\<not> truthy env"
  then show "getConversationKey env c1 = getConversationKey env c2 \<longleftrightarrow>
      sha256 (utf8_encode (js ''conversation-key-'' @ c1))
        = sha256 (utf8_encode (js ''conversation-key-'' @ c2))"
    by (auto simp: getConversationKey_cases dest: base64_encode_inj)
next
  assume "c1 = c2"
  then show "getConversationKey env c1 = getConversationKey env c2"
    by simp
next
  assume a: "well_formed c1 \<and> well_formed c2 \<and> c1 \<noteq> c2"
  then show "utf8_encode c1 \<noteq> utf8_encode c2"
    using utf8_encode_inj by blast
  have "js ''conversation-key-'' @ c1 \<noteq> js ''conversation-key-'' @ c2"
    using a by simp
  then show "utf8_encode (js ''conversation-key-'' @ c1) \<noteq> utf8_encode (js ''conversation-key-'' @ c2)"
    using a utf8_encode_inj js_prefix_well_formed by blast
qed

lemma truthy_secret_master: "truthy (Some secret_master)"
  by (simp add: truthy_def secret_master_def js_def)

text \<open>
  The hypotheses of C2 are met by the ids \<open>c1\<close> and \<open>c2\<close>, with and without a master secret.
\<close>

theorem conversation_key_function_of_digest_witness:
  "truthy (Some secret_master) \<and> \<not> truthy None
   \<and> well_formed (js ''c1'') \<and> well_formed (js ''c2'') \<and> js ''c1'' \<noteq> js ''c2''
   \<and> (getConversationKey (Some secret_master) (js ''c1'') = getConversationKey (Some secret_master) (js ''c2'') \<longleftrightarrow>
        hmac_sha256 (base64_decode secret_master) (utf8_encode (js ''c1''))
          = hmac_sha256 (base64_decode secret_master) (utf8_encode (js ''c2'')))
   \<and> (getConversationKey None (js ''c1'') = getConversationKey None (js ''c2'') \<longleftrightarrow>
        sha256 (utf8_encode (js ''conversation-key-'' @ js ''c1''))
          = sha256 (utf8_encode (js ''conversation-key-'' @ js ''c2'')))
   \<and> getConversationKey None (js ''c1'') = getConversationKey None (js ''c1'')
   \<and> utf8_encode (js ''c1'') \<noteq> utf8_encode (js ''c2'')"
  using conversation_key_function_of_digest [of "Some secret_master" "js ''c1''" "js ''c2''"]
    conversation_key_function_of_digest [of None "js ''c1''" "js ''c2''"]
    truthy_secret_master well_formed_ascii [of "''c1''"] well_formed_ascii [of "''c2''"]
  by (simp add: truthy_def) (simp add: js_def unit_of_def)

text \<open>
  Claim C2 as stated promises different keys for different ids. The ids \<open>"\\uD800"\<close> and
  \<open>"\\uFFFD"\<close> are different strings with the same UTF-8 encoding, so both paths derive
  the same key for them.
\<close>

theorem conversation_key_collision:
  "[0xD800] \<noteq> [0xFFFD :: 16 word]
   \<and> getConversationKey (Some secret_master) [0xD800] = getConversationKey (Some secret_master) [0xFFFD]
   \<and> getConversationKey None [0xD800] = getConversationKey None [0xFFFD]"
proof -
  have e1: "utf8_encode [0xD800] = utf8_encode [0xFFFD]"
    by (simp only: utf8_encode_lone_surrogate utf8_encode_replacement)
  have e2: "utf8_encode (js ''conversation-key-'' @ [0xD800]) = utf8_encode (js ''conversation-key-'' @ [0xFFFD])"
    by (simp add: js_def unit_of_def is_high_surrogate_def is_low_surrogate_def)
  show ?thesis
    by (simp add: getConversationKey_cases e1 e2 del: utf8_encode.simps)
qed

section \<open>The authorization gate (C3)\<close>

lemma encryptMessage_conversation_key:
  "\<exists>enc. encryptMessage rng plaintext (getConversationKey env c) = Inr enc
         \<and> enc_iv enc = base64_encode (randomBytes rng IV_LENGTH)"
  using encryptMessage_valid_key [OF length_getConversationKey, of rng plaintext env c] by simp

lemma send_batch_unauthorized:
  "\<not> isUserAuthorized db (Messages_ConversationId row) (Messages_SenderId row) \<Longrightarrow>
   send_batch db now row =
     ([CheckAuthorization (Messages_ConversationId row) (Messages_SenderId row)], db,
      Some NotAuthorizedThrown)"
  by (simp add: send_batch_def)


lemma createMessage_unauthorized:
  assumes "\<not> isUserAuthorized db conversationId senderId"
    and "p_text payload \<noteq> None"
    and "sql_DateTime2 (new_Date (p_createdAt payload))"
  shows "createMessage env rng now db messageId conversationId senderId payload =
     \<lparr>steps = [DeriveKey conversationId, Encrypt, CheckAuthorization conversationId senderId],
      store = db, outcome = Inl NotAuthorized\<rparr>"
proof -
  obtain plaintext where t: "p_text payload = Some plaintext"
    using assms(2) by blast
  obtain enc where enc: "encryptMessage rng plaintext (getConversationKey env conversationId) = Inr enc"
    using encryptMessage_conversation_key by blast
  show ?thesis
    using assms(1,3)
    by (simp add: createMessage_def Let_def t enc send_batch_unauthorized
        message_includes_Not_authorized_def)
qed

lemma createMessage_steps_prefix:
  assumes "p_text payload \<noteq> None"
    and "sql_DateTime2 (new_Date (p_createdAt payload))"
  shows "take 3 (steps (createMessage env rng now db messageId conversationId senderId payload)) =
     [DeriveKey conversationId, Encrypt, CheckAuthorization conversationId senderId]"
proof -
  obtain plaintext where t: "p_text payload = Some plaintext"
    using assms(1) by blast
  obtain enc where enc: "encryptMessage rng plaintext (getConversationKey env conversationId) = Inr enc"
    using encryptMessage_conversation_key by blast
  show ?thesis
    using assms(2)
    by (simp add: createMessage_def Let_def t enc send_batch_def split: option.split)
qed

lemma createMessage_invalid_date:
  assumes "p_text payload \<noteq> None"
    and "\<not> sql_DateTime2 (new_Date (p_createdAt payload))"
  shows "createMessage env rng now db messageId conversationId senderId payload =
     \<lparr>steps = [DeriveKey conversationId, Encrypt], store = db, outcome = Inl ParameterValidation\<rparr>"
proof -
  obtain plaintext where t: "p_text payload = Some plaintext"
    using assms(1) by blast
  obtain enc where enc: "encryptMessage rng plaintext (getConversationKey env conversationId) = Inr enc"
    using encryptMessage_conversation_key by blast
  show ?thesis
    using assms(2) by (simp add: createMessage_def Let_def t enc)
qed

lemma authorized_participant:
  assumes "isUserAuthorized db c u" and "participants_schema db"
  shows "list_ex (\<lambda>x. Conversations_Id x = c) (Conversations db)"
    and "list_ex (\<lambda>x. Users_Id x = u) (Users db)"
    and "length c \<le> 255" and "length u \<le> 255"
proof -
  obtain p where p: "p \<in> set (ConversationParticipants db)"
      "Participants_ConversationId p = c" "Participants_UserId p = u"
    using assms(1) by (auto simp: isUserAuthorized_def list_ex_iff)
  from assms(2) p(1) have
    "list_ex (\<lambda>x. Conversations_Id x = Participants_ConversationId p) (Conversations db)
     \<and> list_ex (\<lambda>x. Users_Id x = Participants_UserId p) (Users db)
     \<and> length (Participants_ConversationId p) \<le> 255
     \<and> length (Participants_UserId p) \<le> 255"
    unfolding participants_schema_def list_all_iff by blast
  with p show "list_ex (\<lambda>x. Conversations_Id x = c) (Conversations db)"
    and "list_ex (\<lambda>x. Users_Id x = u) (Users db)"
    and "length c \<le> 255" and "length u \<le> 255"
    by simp_all
qed

lemma length_iv_base64: "length (base64_encode (randomBytes rng IV_LENGTH)) = 16"
  by (simp add: length_base64_encode length_randomBytes IV_LENGTH_def)

lemma select_created_appended:
  assumes "\<not> list_ex (\<lambda>m. Messages_Id m = Messages_Id row) ms"
    and "List.find (\<lambda>x. Users_Id x = Messages_SenderId row) us = Some u"
  shows "select_created \<lparr>Users = us, Conversations = cs, ConversationParticipants = ps,
           Messages = ms @ [row]\<rparr> (Messages_Id row) = Some (row, u)"
proof -
  have "filter (\<lambda>m. Messages_Id m = Messages_Id row) ms = []"
    using assms(1) by (simp add: list_ex_iff filter_empty_conv)
  then show ?thesis
    using assms(2) by (simp add: select_created_def join_Users_def)
qed

lemma createMessage_authorized:
  assumes auth: "isUserAuthorized db conversationId senderId"
    and schema: "participants_schema db"
    and wf: "well_formed_send db messageId payload"
  shows "\<exists>enc u.
     encryptMessage rng (the (p_text payload)) (getConversationKey env conversationId) = Inr enc
     \<and> List.find (\<lambda>x. Users_Id x = senderId) (Users db) = Some u
     \<and> outcome (createMessage env rng now db messageId conversationId senderId payload) =
         Inr \<lparr>m_id = messageId, m_conversationId = conversationId, m_senderId = senderId,
              m_text = the (p_text payload), m_createdAt = the (new_Date (p_createdAt payload)),
              m_editedAt = None, m_deletedAt = None, m_replyToMessageId = None,
              m_senderName = or_null (Users_DisplayName u),
              m_senderAvatar = or_null (Users_AvatarUrl u)\<rparr>
     \<and> Messages (store (createMessage env rng now db messageId conversationId senderId payload)) =
         Messages db @
           [\<lparr>Messages_Id = messageId, Messages_ConversationId = conversationId,
             Messages_SenderId = senderId, Messages_Ciphertext = enc_ciphertext enc,
             Messages_IV = enc_iv enc, Messages_CreatedAt = the (new_Date (p_createdAt payload)),
             Messages_EditedAt = None, Messages_DeletedAt = None, Messages_ReplyToMessageId = None\<rparr>]"
proof -
  obtain plaintext where t: "p_text payload = Some plaintext"
    using wf by (auto simp: well_formed_send_def)
  obtain enc where enc: "encryptMessage rng plaintext (getConversationKey env conversationId) = Inr enc"
    and iv: "enc_iv enc = base64_encode (randomBytes rng IV_LENGTH)"
    using encryptMessage_conversation_key by blast
  have date: "sql_DateTime2 (new_Date (p_createdAt payload))"
    and len: "length messageId \<le> 255"
    and fresh: "\<not> list_ex (\<lambda>m. Messages_Id m = messageId) (Messages db)"
    using wf by (simp_all add: well_formed_send_def)
  note part = authorized_participant [OF auth schema]
  obtain u where u: "List.find (\<lambda>x. Users_Id x = senderId) (Users db) = Some u"
    using find_user_Some [OF part(2)] by blast
  define row where "row =
    \<lparr>Messages_Id = messageId, Messages_ConversationId = conversationId,
     Messages_SenderId = senderId, Messages_Ciphertext = enc_ciphertext enc,
     Messages_IV = enc_iv enc, Messages_CreatedAt = the (new_Date (p_createdAt payload)),
     Messages_EditedAt = None, Messages_DeletedAt = None, Messages_ReplyToMessageId = None\<rparr>"
  have row_sel: "Messages_Id row = messageId" "Messages_ConversationId row = conversationId"
    "Messages_SenderId row = senderId" "Messages_IV row = enc_iv enc"
    "Messages_CreatedAt row = the (new_Date (p_createdAt payload))"
    by (simp_all add: row_def)
  have viol: "insert_violation db row = None"
    using len fresh part by (simp add: insert_violation_def row_sel iv length_iv_base64)
  define db' where "db' = update_conversation (db\<lparr>Messages := Messages db @ [row]\<rparr>) conversationId
      messageId (the (new_Date (p_createdAt payload))) now"
  have batch: "send_batch db now row =
      ([CheckAuthorization conversationId senderId, InsertMessage messageId,
        UpdateConversation conversationId], db', None)"
    using auth viol by (simp add: send_batch_def row_sel db'_def)
  have db': "db' = \<lparr>Users = Users db, Conversations = Conversations db', 
      ConversationParticipants = ConversationParticipants db, Messages = Messages db @ [row]\<rparr>"
    by (simp add: db'_def update_conversation_def)
  have "select_created db' (Messages_Id row) = Some (row, u)"
    using fresh u by (subst db') (rule select_created_appended, simp_all add: row_sel)
  then have sel: "select_created db' messageId = Some (row, u)"
    by (simp add: row_sel)
  have msgs: "Messages db' = Messages db @ [row]"
    by (subst db') simp
  have cm: "createMessage env rng now db messageId conversationId senderId payload =
      \<lparr>steps = [DeriveKey conversationId, Encrypt, CheckAuthorization conversationId senderId,
                InsertMessage messageId, UpdateConversation conversationId, SelectCreated messageId],
       store = db',
       outcome = Inr \<lparr>m_id = Messages_Id row, m_conversationId = Messages_ConversationId row,
              m_senderId = Messages_SenderId row,
              m_text = plaintext, m_createdAt = Messages_CreatedAt row,
              m_editedAt = None, m_deletedAt = None, m_replyToMessageId = None,
              m_senderName = or_null (Users_DisplayName u),
              m_senderAvatar = or_null (Users_AvatarUrl u)\<rparr>\<rparr>"
    using date by (simp add: createMessage_def Let_def t enc row_def [symmetric] batch sel)
  show ?thesis
    using enc u msgs by (simp add: cm t row_sel) (simp add: row_def)
qed

lemma alice_authorized: "isUserAuthorized demo_db (js ''c1'') (js ''alice'')"
  by (simp add: isUserAuthorized_def demo_db_def)

lemma bob_unauthorized: "\<not> isUserAuthorized demo_db (js ''c1'') (js ''bob'')"
  by (simp add: isUserAuthorized_def demo_db_def js_def unit_of_def)

lemma demo_db_schema: "participants_schema demo_db"
  by (simp add: participants_schema_def demo_db_def js_def)

lemma hi_payload_well_formed: "well_formed_send demo_db (js ''m1'') hi_payload"
  by (simp add: well_formed_send_def demo_db_def hi_payload_def new_Date_def sql_DateTime2_def js_def)








section \<open>Derived keys have the right length (C10)\<close>

lemma createMessage_not_key_error:
  "outcome (createMessage env rng now db mid c u payload) \<noteq> Inl (InvalidKeyLength n)"
proof (cases "p_text payload")
  case None
  then show ?thesis by (simp add: createMessage_def)
next
  case (Some plaintext)
  obtain enc where enc: "encryptMessage rng plaintext (getConversationKey env c) = Inr enc"
    using encryptMessage_conversation_key by blast
  show ?thesis
    by (auto simp: createMessage_def Let_def Some enc send_batch_def split: option.splits)
qed

text \<open>
  Claim C10. \<open>getConversationKey\<close> has no failing branch: for every conversation id (empty
  or not) and every setting of the master secret, on the HMAC path and on the SHA-256 fallback
  path alike, it returns a base64 string that decodes to exactly 32 bytes. Hence neither
  \<open>encryptMessage\<close> nor \<open>decryptMessage\<close> raises the invalid-key-length error under a key
  that \<open>getConversationKey\<close> produced, and \<open>createMessage\<close>, which encrypts under such a
  key, never fails with that error.
\<close>

theorem conversation_key_always_valid:
  "length (base64_decode (getConversationKey env conversationId)) = 32
   \<and> (\<forall>rng plaintext n.
         encryptMessage rng plaintext (getConversationKey env conversationId) \<noteq> Inl (InvalidKeyLength n))
   \<and> (\<forall>ciphertext iv n.
         decryptMessage ciphertext iv (getConversationKey env conversationId) \<noteq> Inl (InvalidKeyLength n))
   \<and> (\<forall>rng now db messageId senderId payload n.
         outcome (createMessage env rng now db messageId conversationId senderId payload)
           \<noteq> Inl (InvalidKeyLength n))"
  using length_getConversationKey [of env conversationId]
  by (simp add: encryptMessage_valid_key decryptMessage_not_key_error createMessage_not_key_error
      KEY_LENGTH_def)

section \<open>Pagination (C4)\<close>

lemma page_rows_subset:
  "set (take l (drop k (sort_key f (join_Users db (filter P (conversation_messages db c))))))
     \<subseteq> {r. fst r \<in> set (conversation_messages db c)}"
proof
  fix r
  assume "r \<in> set (take l (drop k (sort_key f (join_Users db (filter P (conversation_messages db c))))))"
  then have "r \<in> set (drop k (sort_key f (join_Users db (filter P (conversation_messages db c)))))"
    by (rule in_set_takeD)
  then have "r \<in> set (sort_key f (join_Users db (filter P (conversation_messages db c))))"
    by (rule in_set_dropD)
  then have "r \<in> set (join_Users db (filter P (conversation_messages db c)))"
    by simp
  then have "(fst r, snd r) \<in> set (join_Users db (filter P (conversation_messages db c)))"
    by simp
  then have "fst r \<in> set (filter P (conversation_messages db c))"
    by (rule set_join_Users)
  then show "r \<in> {r. fst r \<in> set (conversation_messages db c)}"
    by simp
qed

lemma FK_filter:
  "FK_Messages_Sender db \<Longrightarrow>
   list_all (\<lambda>m. list_ex (\<lambda>u. Users_Id u = Messages_SenderId m) (Users db))
     (filter P (conversation_messages db c))"
  by (simp add: FK_Messages_Sender_def conversation_messages_def list_all_iff)

lemma page_rows_ids:
  assumes "FK_Messages_Sender db"
  shows "map fst (take l (drop k (sort_key (\<lambda>r. Messages_CreatedAt (fst r))
            (join_Users db (filter P (conversation_messages db c))))))
     = take l (drop k (sort_key Messages_CreatedAt (filter P (conversation_messages db c))))"
proof -
  let ?ms = "filter P (conversation_messages db c)"
  have "map fst (take l (drop k (sort_key (\<lambda>r. Messages_CreatedAt (fst r)) (join_Users db ?ms))))
      = take l (drop k (map fst (sort_key (\<lambda>r. Messages_CreatedAt (fst r)) (join_Users db ?ms))))"
    by (simp only: take_map drop_map)
  also have "map fst (sort_key (\<lambda>r. Messages_CreatedAt (fst r)) (join_Users db ?ms))
      = sort_key Messages_CreatedAt (map fst (join_Users db ?ms))"
    by (rule sort_key_map)
  also have "map fst (join_Users db ?ms) = ?ms"
    by (rule map_fst_join_Users [OF FK_filter [OF assms]])
  finally show ?thesis .
qed

text \<open>
  Claim C4 (as amended). For every \<open>getMessages\<close> call that returns: every returned message
  is a non-deleted row of the conversation; the messages are ordered by creation time
  ascending; there are at most \<open>min(L, 100)\<close> of them, where \<open>L\<close> is the requested limit, or
  50 when no limit or the limit 0 was requested; under the store's foreign key from a message
  to its sender they are exactly the first \<open>min(L, 100)\<close> rows after skipping \<open>offset\<close> rows
  of the conversation's non-deleted rows inside the \<open>before\<close>/\<open>after\<close> boundary, in
  ascending order of creation time; \<open>hasMore\<close> is \<open>offset + returned count < total\<close>, and
  \<open>total\<close> counts the conversation's non-deleted rows.
\<close>

theorem getMessages_page:
  assumes "getMessages env db c u params = Inr r"
  shows "(\<forall>m \<in> set (r_data r).
            m_conversationId m = c \<and> m_deletedAt m = None
            \<and> (\<exists>row \<in> set (Messages db). Messages_Id row = m_id m
                  \<and> Messages_ConversationId row = c \<and> Messages_DeletedAt row = None
                  \<and> Messages_CreatedAt row = m_createdAt m))
     \<and> sorted (map m_createdAt (r_data r))
     \<and> int (length (r_data r)) \<le> min (number_or (q_limit params) 50) 100
     \<and> (FK_Messages_Sender db \<longrightarrow>
          map m_id (r_data r) =
            map Messages_Id
              (take (nat (min (number_or (q_limit params) 50) 100))
                 (drop (nat (number_or (q_offset params) 0))
                    (sort_key Messages_CreatedAt
                       (filter (\<lambda>m. in_boundary (resolve_boundary db params) (Messages_CreatedAt m))
                          (conversation_messages db c))))))
     \<and> r_hasMore r = (number_or (q_offset params) 0 + int (length (r_data r)) < r_total r)
     \<and> r_total r = int (length (conversation_messages db c))"
proof -
  define limit where "limit = min (number_or (q_limit params) 50) 100"
  define offset where "offset = number_or (q_offset params) 0"
  define b where "b = resolve_boundary db params"
  obtain rows where sel: "select_messages db c b offset limit = Inr rows"
    and data: "r_data r = map (decrypt_row (getConversationKey env c)) rows"
    and total: "r_total r = int (length (conversation_messages db c))"
    and more: "r_hasMore r = (offset + int (length rows) < int (length (conversation_messages db c)))"
    using getMessages_Inr [OF assms] unfolding limit_def offset_def b_def by blast
  note rows = select_messages_Inr [OF sel]
  have members: "\<forall>row \<in> set rows. fst row \<in> set (conversation_messages db c)"
    using page_rows_subset [of "nat limit" "nat offset" "\<lambda>r. Messages_CreatedAt (fst r)" db
        "\<lambda>m. in_boundary b (Messages_CreatedAt m)" c]
    unfolding rows(1) [symmetric] by blast
  have p1: "\<forall>m \<in> set (r_data r).
            m_conversationId m = c \<and> m_deletedAt m = None
            \<and> (\<exists>row \<in> set (Messages db). Messages_Id row = m_id m
                  \<and> Messages_ConversationId row = c \<and> Messages_DeletedAt row = None
                  \<and> Messages_CreatedAt row = m_createdAt m)"
  proof
    fix m
    assume "m \<in> set (r_data r)"
    then obtain row where row: "row \<in> set rows" and m: "m = decrypt_row (getConversationKey env c) row"
      unfolding data by auto
    have "fst row \<in> set (conversation_messages db c)"
      using members row by blast
    then have f: "fst row \<in> set (Messages db)" "Messages_ConversationId (fst row) = c"
      "Messages_DeletedAt (fst row) = None"
      by (simp_all add: conversation_messages_def)
    show "m_conversationId m = c \<and> m_deletedAt m = None
            \<and> (\<exists>row \<in> set (Messages db). Messages_Id row = m_id m
                  \<and> Messages_ConversationId row = c \<and> Messages_DeletedAt row = None
                  \<and> Messages_CreatedAt row = m_createdAt m)"
      using f unfolding m
      by (auto simp: m_conversationId_decrypt_row m_deletedAt_decrypt_row m_id_decrypt_row
          m_createdAt_decrypt_row)
  qed
  have "map m_createdAt (r_data r) = map (\<lambda>r. Messages_CreatedAt (fst r)) rows"
    by (simp add: data m_createdAt_decrypt_row)
  then have p2: "sorted (map m_createdAt (r_data r))"
    unfolding rows(1) by (simp only: page_rows_sorted)
  have "length rows \<le> nat limit"
    unfolding rows(1) by simp
  then have p3: "int (length (r_data r)) \<le> limit"
    using rows(3) by (simp add: data)
  have p4: "map m_id (r_data r) =
      map Messages_Id (take (nat limit) (drop (nat offset) (sort_key Messages_CreatedAt
        (filter (\<lambda>m. in_boundary b (Messages_CreatedAt m)) (conversation_messages db c)))))"
    if fk: "FK_Messages_Sender db"
  proof -
    have "map m_id (r_data r) = map Messages_Id (map fst rows)"
      by (simp add: data m_id_decrypt_row)
    then show ?thesis
      unfolding rows(1) page_rows_ids [OF fk] .
  qed
  have p5: "r_hasMore r = (offset + int (length (r_data r)) < r_total r)"
    by (simp add: more total data)
  show ?thesis
    using p1 p2 p3 p4 p5 total unfolding limit_def offset_def b_def by blast
qed

lemma demo_alice_find:
  "List.find (\<lambda>u. Users_Id u = js ''alice'') (Users demo_db)
     = Some \<lparr>Users_Id = js ''alice'', Users_DisplayName = Some (js ''Alice''), Users_AvatarUrl = None\<rparr>"
  by (simp add: demo_db_def)

lemma one_message_db_authorized: "isUserAuthorized one_message_db (js ''c1'') (js ''alice'')"
  by (simp add: isUserAuthorized_def one_message_db_def demo_db_def)

lemma one_message_db_page:
  "0 < limit \<Longrightarrow> limit \<le> 100 \<Longrightarrow>
   select_messages one_message_db (js ''c1'') NoBoundary 0 limit =
     Inr [(stored_row, \<lparr>Users_Id = js ''alice'', Users_DisplayName = Some (js ''Alice''),
                        Users_AvatarUrl = None\<rparr>)]"
  by (simp add: select_messages_def sql_Int_def conversation_messages_def one_message_db_def
      stored_row_def in_boundary_def join_Users_def demo_alice_find)

lemma getMessages_limit_zero:
  "getMessages None one_message_db (js ''c1'') (js ''alice'') (limit_params 0) =
     Inr \<lparr>r_data = [decrypt_row (getConversationKey None (js ''c1''))
                      (stored_row, \<lparr>Users_Id = js ''alice'', Users_DisplayName = Some (js ''Alice''),
                                    Users_AvatarUrl = None\<rparr>)],
          r_hasMore = False, r_total = 1\<rparr>"
proof -
  have n: "number_or (q_limit (limit_params 0)) 50 = 50" "number_or (q_offset (limit_params 0)) 0 = 0"
    by (simp_all add: number_or_def limit_params_def)
  have b: "resolve_boundary one_message_db (limit_params 0) = NoBoundary"
    by (simp add: resolve_boundary_def truthy_def limit_params_def)
  have c: "conversation_messages one_message_db (js ''c1'') = [stored_row]"
    by (simp add: conversation_messages_def one_message_db_def stored_row_def)
  show ?thesis
    using getMessages_authorized [OF one_message_db_authorized, of "limit_params 0" _ None]
      one_message_db_page [of 50]
    by (simp add: n b c)
qed

text \<open>
  Claim C4 as stated bounds the page by \<open>min(limit, 100)\<close>. A request with \<open>limit = 0\<close>
  (\<open>?limit=0\<close>) is served with the default of 50: from a conversation holding one message
  the call returns that message, more than \<open>min(0, 100) = 0\<close>.
\<close>

theorem getMessages_limit_zero_returns_rows:
  "(case getMessages None one_message_db (js ''c1'') (js ''alice'') (limit_params 0) of
      Inr r \<Rightarrow> q_limit (limit_params 0) = Some 0 \<and> length (r_data r) = 1
               \<and> \<not> int (length (r_data r)) \<le> min 0 100
    | Inl e \<Rightarrow> False)"
  by (simp only: getMessages_limit_zero) (simp add: limit_params_def)

lemma thread_db_authorized: "isUserAuthorized thread_db (js ''c1'') (js ''alice'')"
  by (simp add: isUserAuthorized_def thread_db_def demo_db_def)

lemma thread_db_FK: "FK_Messages_Sender thread_db"
  by (simp add: FK_Messages_Sender_def thread_db_def demo_db_def sample_row_def)

lemma thread_db_conversation:
  "conversation_messages thread_db (js ''c1'') =
     [sample_row ''m1'' ''c1'' 300 None, sample_row ''m2'' ''c1'' 100 None,
      sample_row ''m4'' ''c1'' 400 None, sample_row ''m5'' ''c1'' 50 None,
      sample_row ''m7'' ''c1'' 500 None]"
  by (simp add: conversation_messages_def thread_db_def sample_row_def js_def unit_of_def)

lemma thread_db_boundaries:
  "resolve_boundary thread_db after_params = AfterCreatedAt 50"
  "resolve_boundary thread_db before_params = BeforeCreatedAt 400"
  by (simp_all add: resolve_boundary_def select_CreatedAt_def truthy_def after_params_def
      before_params_def thread_db_def sample_row_def js_def unit_of_def)

lemma thread_db_numbers:
  "number_or (q_limit after_params) 50 = 2" "number_or (q_offset after_params) 0 = 1"
  "number_or (q_limit before_params) 50 = 500" "number_or (q_offset before_params) 0 = 0"
  by (simp_all add: number_or_def after_params_def before_params_def)

lemma sample_row_fields:
  "Messages_Id (sample_row i c t d) = js i" "Messages_CreatedAt (sample_row i c t d) = t"
  "Messages_SenderId (sample_row i c t d) = js ''alice''"
  by (simp_all add: sample_row_def)

text \<open>
  The hypotheses of C4 are met by two reads from a conversation of five non-deleted messages,
  stored out of order beside a deleted message and a message of another conversation, in a
  store that satisfies the foreign key. The first read asks for the messages after \<open>m5\<close>,
  skips one row and is cut by its limit of 2; the second asks for the messages before \<open>m4\<close>
  with a limit of 500, which is capped at 100.
\<close>

theorem getMessages_page_witness:
  "FK_Messages_Sender thread_db
   \<and> (\<exists>r. getMessages None thread_db (js ''c1'') (js ''alice'') after_params = Inr r
       \<and> map m_id (r_data r) = [js ''m1'', js ''m4'']
       \<and> sorted (map m_createdAt (r_data r))
       \<and> int (length (r_data r)) \<le> min 2 100
       \<and> r_hasMore r = (1 + int (length (r_data r)) < r_total r)
       \<and> r_hasMore r \<and> r_total r = 5)
   \<and> (\<exists>r. getMessages None thread_db (js ''c1'') (js ''alice'') before_params = Inr r
       \<and> map m_id (r_data r) = [js ''m5'', js ''m2'', js ''m1'']
       \<and> sorted (map m_createdAt (r_data r))
       \<and> int (length (r_data r)) \<le> min 500 100
       \<and> r_hasMore r = (0 + int (length (r_data r)) < r_total r)
       \<and> r_hasMore r \<and> r_total r = 5)"
proof -
  have after_ok: "page_ok after_params" and before_ok: "page_ok before_params"
    by (simp_all add: page_ok_def thread_db_numbers)
  obtain r1 where r1: "getMessages None thread_db (js ''c1'') (js ''alice'') after_params = Inr r1"
    using getMessages_authorized [OF thread_db_authorized select_messages_ok [OF after_ok]] by blast
  obtain r2 where r2: "getMessages None thread_db (js ''c1'') (js ''alice'') before_params = Inr r2"
    using getMessages_authorized [OF thread_db_authorized select_messages_ok [OF before_ok]] by blast
  have ids1: "map m_id (r_data r1) = [js ''m1'', js ''m4'']"
    and len1: "int (length (r_data r1)) \<le> min 2 100"
    and sorted1: "sorted (map m_createdAt (r_data r1))"
    and more1: "r_hasMore r1 = (1 + int (length (r_data r1)) < r_total r1)"
    and total1: "r_total r1 = 5"
    using getMessages_page [OF r1] thread_db_FK
    by (simp_all add: thread_db_numbers thread_db_boundaries thread_db_conversation in_boundary_def
        sample_row_fields)
  have ids2: "map m_id (r_data r2) = [js ''m5'', js ''m2'', js ''m1'']"
    and len2: "int (length (r_data r2)) \<le> min 500 100"
    and sorted2: "sorted (map m_createdAt (r_data r2))"
    and more2: "r_hasMore r2 = (0 + int (length (r_data r2)) < r_total r2)"
    and total2: "r_total r2 = 5"
    using getMessages_page [OF r2] thread_db_FK
    by (simp_all add: thread_db_numbers thread_db_boundaries thread_db_conversation in_boundary_def
        sample_row_fields)
  have "length (r_data r1) = 2" "length (r_data r2) = 3"
    using arg_cong [OF ids1, of length] arg_cong [OF ids2, of length] by simp_all
  then have true1: "r_hasMore r1" and true2: "r_hasMore r2"
    using more1 more2 total1 total2 by simp_all
  show ?thesis
    by (intro conjI exI [of _ r1] exI [of _ r2])
      (rule thread_db_FK r1 r2 ids1 ids2 len1 len2 sorted1 sorted2 more1 more2 total1 total2
        true1 true2)+
qed

section \<open>Decryption failures while reading (C5)\<close>

lemma decrypt_row_fields:
  "decrypt_row k row =
     \<lparr>m_id = Messages_Id (fst row),
      m_conversationId = Messages_ConversationId (fst row),
      m_senderId = Messages_SenderId (fst row),
      m_text = (case decryptMessage (Messages_Ciphertext (fst row)) (Messages_IV (fst row)) k of
                  Inr plain \<Rightarrow> plain
                | Inl e \<Rightarrow> js ''[Could not decrypt message]''),
      m_createdAt = Messages_CreatedAt (fst row),
      m_editedAt = Messages_EditedAt (fst row),
      m_deletedAt = Messages_DeletedAt (fst row),
      m_replyToMessageId = or_null (Messages_ReplyToMessageId (fst row)),
      m_senderName = or_null (Users_DisplayName (snd row)),
      m_senderAvatar = or_null (Users_AvatarUrl (snd row))\<rparr>"
  unfolding decrypt_row_def could_not_decrypt_def by (rule refl)

text \<open>
  Claim C5. Once the caller is authorized and the store has delivered the page of rows,
  \<open>getMessages\<close> returns: no outcome of \<open>decryptMessage\<close> on any row makes it fail. It
  returns one message per row, in the order of the rows, and each message carries every field
  of its row and of the sender joined to it. The text of a row that \<open>decryptMessage\<close>
  rejects is the sentinel \<open>[Could not decrypt message]\<close>; the text of every other row is the
  plaintext \<open>decryptMessage\<close> returned for it, whatever happened to the rows around it.
\<close>

theorem decryption_failure_is_row_scoped:
  assumes "isUserAuthorized db c u"
    and "select_messages db c (resolve_boundary db params) (number_or (q_offset params) 0)
           (min (number_or (q_limit params) 50) 100) = Inr rows"
  shows "\<exists>r. getMessages env db c u params = Inr r
     \<and> length (r_data r) = length rows
     \<and> (\<forall>i < length rows.
          r_data r ! i =
            \<lparr>m_id = Messages_Id (fst (rows ! i)),
             m_conversationId = Messages_ConversationId (fst (rows ! i)),
             m_senderId = Messages_SenderId (fst (rows ! i)),
             m_text =
               (case decryptMessage (Messages_Ciphertext (fst (rows ! i))) (Messages_IV (fst (rows ! i)))
                       (getConversationKey env c) of
                  Inr plain \<Rightarrow> plain
                | Inl e \<Rightarrow> js ''[Could not decrypt message]''),
             m_createdAt = Messages_CreatedAt (fst (rows ! i)),
             m_editedAt = Messages_EditedAt (fst (rows ! i)),
             m_deletedAt = Messages_DeletedAt (fst (rows ! i)),
             m_replyToMessageId = or_null (Messages_ReplyToMessageId (fst (rows ! i))),
             m_senderName = or_null (Users_DisplayName (snd (rows ! i))),
             m_senderAvatar = or_null (Users_AvatarUrl (snd (rows ! i)))\<rparr>)"
  by (simp add: getMessages_authorized [OF assms] decrypt_row_fields)

lemma send_batch_preserves:
  "Users (fst (snd (send_batch db now row))) = Users db
   \<and> ConversationParticipants (fst (snd (send_batch db now row))) = ConversationParticipants db"
  by (simp add: send_batch_def update_conversation_def Let_def)

lemma createMessage_preserves:
  "Users (store (createMessage env rng now db mid c u payload)) = Users db
   \<and> ConversationParticipants (store (createMessage env rng now db mid c u payload))
       = ConversationParticipants db"
proof (cases "p_text payload")
  case None
  then show ?thesis by (simp add: createMessage_def)
next
  case (Some plaintext)
  obtain enc where enc: "encryptMessage rng plaintext (getConversationKey env c) = Inr enc"
    using encryptMessage_conversation_key by blast
  obtain batch db' e where b: "send_batch db now
      \<lparr>Messages_Id = mid, Messages_ConversationId = c, Messages_SenderId = u,
       Messages_Ciphertext = enc_ciphertext enc, Messages_IV = enc_iv enc,
       Messages_CreatedAt = the (new_Date (p_createdAt payload)),
       Messages_EditedAt = None, Messages_DeletedAt = None, Messages_ReplyToMessageId = None\<rparr>
      = (batch, db', e)"
    using prod_cases3 by blast
  have "Users db' = Users db \<and> ConversationParticipants db' = ConversationParticipants db"
    using send_batch_preserves [of db now] b by (metis fst_conv snd_conv)
  then show ?thesis
    by (simp add: createMessage_def Let_def Some enc b split: option.split)
qed

lemma one_message_db_schema: "participants_schema one_message_db"
  by (simp add: participants_schema_def one_message_db_def demo_db_def js_def)

lemma hi_payload_fresh: "well_formed_send one_message_db (js ''m1'') hi_payload"
  by (simp add: well_formed_send_def one_message_db_def stored_row_def hi_payload_def new_Date_def
      sql_DateTime2_def js_def unit_of_def)

lemma sent_db_authorized: "isUserAuthorized sent_db (js ''c1'') (js ''alice'')"
  using one_message_db_authorized
  by (simp add: isUserAuthorized_def sent_db_def createMessage_preserves)

lemma decrypt_stored_row:
  "decryptMessage (Messages_Ciphertext stored_row) (Messages_IV stored_row) (getConversationKey env c)
     = Inl InvalidIV"
  using length_getConversationKey [of env c]
  by (simp add: decryptMessage_def stored_row_def gcm_decrypt_def base64_decode_def base64_sextets_Nil)

text \<open>
  The hypotheses of C5 are met by a page of two rows: the row that \<open>createMessage\<close> wrote for
  the text \<open>hi\<close>, and a row with an empty IV, which \<open>decryptMessage\<close> rejects. The first is
  returned with its plaintext, the second with the sentinel text, both with the fields of their
  rows and the name of the sender.
\<close>

theorem decryption_failure_is_row_scoped_witness:
  "isUserAuthorized sent_db (js ''c1'') (js ''alice'')
   \<and> (\<exists>rows r. select_messages sent_db (js ''c1'') (resolve_boundary sent_db default_params)
                  (number_or (q_offset default_params) 0)
                  (min (number_or (q_limit default_params) 50) 100) = Inr rows
        \<and> map (\<lambda>row. Messages_Id (fst row)) rows = [js ''m1'', js ''m0'']
        \<and> (\<exists>e. decryptMessage (Messages_Ciphertext (fst (rows ! 1))) (Messages_IV (fst (rows ! 1)))
                  (getConversationKey None (js ''c1'')) = Inl e)
        \<and> getMessages None sent_db (js ''c1'') (js ''alice'') default_params = Inr r
        \<and> r_data r =
            [\<lparr>m_id = js ''m1'', m_conversationId = js ''c1'', m_senderId = js ''alice'',
              m_text = js ''hi'', m_createdAt = 1000, m_editedAt = None, m_deletedAt = None,
              m_replyToMessageId = None, m_senderName = Some (js ''Alice''), m_senderAvatar = None\<rparr>,
             \<lparr>m_id = js ''m0'', m_conversationId = js ''c1'', m_senderId = js ''alice'',
              m_text = js ''[Could not decrypt message]'', m_createdAt = 2000, m_editedAt = None,
              m_deletedAt = None, m_replyToMessageId = None, m_senderName = Some (js ''Alice''),
              m_senderAvatar = None\<rparr>])"
proof -
  define alice where "alice =
    \<lparr>Users_Id = js ''alice'', Users_DisplayName = Some (js ''Alice''), Users_AvatarUrl = None\<rparr>"
  obtain enc u where enc: "encryptMessage zero_rng (the (p_text hi_payload))
        (getConversationKey None (js ''c1'')) = Inr enc"
    and u: "List.find (\<lambda>x. Users_Id x = js ''alice'') (Users one_message_db) = Some u"
    and msgs: "Messages sent_db = Messages one_message_db @
           [\<lparr>Messages_Id = js ''m1'', Messages_ConversationId = js ''c1'',
             Messages_SenderId = js ''alice'', Messages_Ciphertext = enc_ciphertext enc,
             Messages_IV = enc_iv enc, Messages_CreatedAt = the (new_Date (p_createdAt hi_payload)),
             Messages_EditedAt = None, Messages_DeletedAt = None, Messages_ReplyToMessageId = None\<rparr>]"
    using createMessage_authorized [OF one_message_db_authorized one_message_db_schema hi_payload_fresh,
        of zero_rng None 5]
    unfolding sent_db_def by blast
  have u_alice: "u = alice"
    using u demo_alice_find by (simp add: one_message_db_def alice_def)
  define row where "row =
    \<lparr>Messages_Id = js ''m1'', Messages_ConversationId = js ''c1'',
     Messages_SenderId = js ''alice'', Messages_Ciphertext = enc_ciphertext enc,
     Messages_IV = enc_iv enc, Messages_CreatedAt = 1000,
     Messages_EditedAt = None, Messages_DeletedAt = None, Messages_ReplyToMessageId = None\<rparr>"
  have t: "the (p_text hi_payload) = js ''hi''" "the (new_Date (p_createdAt hi_payload)) = 1000"
    by (simp_all add: hi_payload_def new_Date_def)
  have messages: "Messages sent_db = [stored_row, row]"
    using msgs by (simp add: t row_def one_message_db_def)
  have users: "Users sent_db = Users one_message_db"
    by (simp add: sent_db_def createMessage_preserves)
  have find: "List.find (\<lambda>x. Users_Id x = js ''alice'') (Users sent_db) = Some alice"
    using u by (simp add: users u_alice)
  have conv: "conversation_messages sent_db (js ''c1'') = [stored_row, row]"
    by (simp add: conversation_messages_def messages stored_row_def row_def)
  have n: "number_or (q_limit default_params) 50 = 50" "number_or (q_offset default_params) 0 = 0"
    "resolve_boundary sent_db default_params = NoBoundary"
    by (simp_all add: number_or_def default_params_def resolve_boundary_def truthy_def)
  have sender: "Messages_SenderId stored_row = js ''alice''" "Messages_SenderId row = js ''alice''"
    and created: "Messages_CreatedAt stored_row = 2000" "Messages_CreatedAt row = 1000"
    by (simp_all add: stored_row_def row_def)
  have sel: "select_messages sent_db (js ''c1'') NoBoundary 0 50 = Inr [(row, alice), (stored_row, alice)]"
    by (simp add: select_messages_def sql_Int_def conv in_boundary_def join_Users_def sender find created)
  have dec: "decryptMessage (Messages_Ciphertext row) (Messages_IV row) (getConversationKey None (js ''c1''))
      = Inr (js ''hi'')"
    using decrypt_encrypt [OF length_getConversationKey enc] utf8_round_trip [OF well_formed_ascii, of "''hi''"]
    by (simp add: row_def t)
  obtain r where r: "getMessages None sent_db (js ''c1'') (js ''alice'') default_params = Inr r"
    and len: "length (r_data r) = 2"
    and r0: "r_data r ! 0 =
       \<lparr>m_id = Messages_Id row, m_conversationId = Messages_ConversationId row,
        m_senderId = Messages_SenderId row,
        m_text = (case decryptMessage (Messages_Ciphertext row) (Messages_IV row)
                         (getConversationKey None (js ''c1'')) of
                    Inr plain \<Rightarrow> plain | Inl e \<Rightarrow> js ''[Could not decrypt message]''),
        m_createdAt = Messages_CreatedAt row, m_editedAt = Messages_EditedAt row,
        m_deletedAt = Messages_DeletedAt row,
        m_replyToMessageId = or_null (Messages_ReplyToMessageId row),
        m_senderName = or_null (Users_DisplayName alice),
        m_senderAvatar = or_null (Users_AvatarUrl alice)\<rparr>"
    and r1: "r_data r ! 1 =
       \<lparr>m_id = Messages_Id stored_row, m_conversationId = Messages_ConversationId stored_row,
        m_senderId = Messages_SenderId stored_row,
        m_text = (case decryptMessage (Messages_Ciphertext stored_row) (Messages_IV stored_row)
                         (getConversationKey None (js ''c1'')) of
                    Inr plain \<Rightarrow> plain | Inl e \<Rightarrow> js ''[Could not decrypt message]''),
        m_createdAt = Messages_CreatedAt stored_row, m_editedAt = Messages_EditedAt stored_row,
        m_deletedAt = Messages_DeletedAt stored_row,
        m_replyToMessageId = or_null (Messages_ReplyToMessageId stored_row),
        m_senderName = or_null (Users_DisplayName alice),
        m_senderAvatar = or_null (Users_AvatarUrl alice)\<rparr>"
    using decryption_failure_is_row_scoped [OF sent_db_authorized, of default_params
        "[(row, alice), (stored_row, alice)]" None] sel
    by (auto simp: n All_less_Suc numeral_2_eq_2)
  have "r_data r = [r_data r ! 0, r_data r ! 1]"
    using len by (cases "r_data r"; cases "tl (r_data r)") auto
  then have data: "r_data r =
      [\<lparr>m_id = js ''m1'', m_conversationId = js ''c1'', m_senderId = js ''alice'',
        m_text = js ''hi'', m_createdAt = 1000, m_editedAt = None, m_deletedAt = None,
        m_replyToMessageId = None, m_senderName = Some (js ''Alice''), m_senderAvatar = None\<rparr>,
       \<lparr>m_id = js ''m0'', m_conversationId = js ''c1'', m_senderId = js ''alice'',
        m_text = js ''[Could not decrypt message]'', m_createdAt = 2000, m_editedAt = None,
        m_deletedAt = None, m_replyToMessageId = None, m_senderName = Some (js ''Alice''),
        m_senderAvatar = None\<rparr>]"
    unfolding r0 r1 dec decrypt_stored_row
    by (simp add: row_def stored_row_def alice_def or_null_def truthy_def js_def)
  have ids: "map (\<lambda>row. Messages_Id (fst row)) [(row, alice), (stored_row, alice)] = [js ''m1'', js ''m0'']"
    by (simp add: row_def stored_row_def)
  have fails: "\<exists>e. decryptMessage (Messages_Ciphertext (fst ([(row, alice), (stored_row, alice)] ! 1)))
      (Messages_IV (fst ([(row, alice), (stored_row, alice)] ! 1))) (getConversationKey None (js ''c1'')) = Inl e"
    by (simp add: decrypt_stored_row)
  show ?thesis
    using sent_db_authorized sel r data ids fails by (auto simp: n)
qed

section \<open>The order of the steps of a send (C8)\<close>

lemma createMessage_steps_take:
  "\<exists>n. steps (createMessage env rng now db mid c u payload) =
     take n [DeriveKey c, Encrypt, CheckAuthorization c u, InsertMessage mid, UpdateConversation c,
             SelectCreated mid]"
proof (cases "p_text payload")
  case None
  have "steps (createMessage env rng now db mid c u payload) =
      take 1 [DeriveKey c, Encrypt, CheckAuthorization c u, InsertMessage mid, UpdateConversation c,
              SelectCreated mid]"
    by (simp add: createMessage_def None)
  then show ?thesis ..
next
  case (Some plaintext)
  obtain enc where enc: "encryptMessage rng plaintext (getConversationKey env c) = Inr enc"
    using encryptMessage_conversation_key by blast
  let ?all = "[DeriveKey c, Encrypt, CheckAuthorization c u, InsertMessage mid, UpdateConversation c,
              SelectCreated mid]"
  have "steps (createMessage env rng now db mid c u payload) = take 2 ?all
      \<or> steps (createMessage env rng now db mid c u payload) = take 3 ?all
      \<or> steps (createMessage env rng now db mid c u payload) = take 5 ?all
      \<or> steps (createMessage env rng now db mid c u payload) = take 6 ?all"
    by (simp add: createMessage_def Let_def Some enc send_batch_def split: option.split)
  then show ?thesis
    by blast
qed

lemma createMessage_insert_authorized:
  assumes "InsertMessage mid \<in> set (steps (createMessage env rng now db mid c u payload))"
  shows "isUserAuthorized db c u"
proof (rule ccontr)
  assume n: "\<not> isUserAuthorized db c u"
  show False
  proof (cases "p_text payload")
    case None
    with assms show False by (simp add: createMessage_def)
  next
    case (Some plaintext)
    obtain enc where enc: "encryptMessage rng plaintext (getConversationKey env c) = Inr enc"
      using encryptMessage_conversation_key by blast
    show False
      using assms n
      by (simp add: createMessage_def Let_def Some enc send_batch_unauthorized split: if_splits)
  qed
qed

text \<open>
  Claim C8 (as amended). \<open>createMessage\<close> (sendMessage) performs its steps in this order:
  it derives the conversation key, encrypts the plaintext, and only then verifies, inside the
  batch sent to the store, that the sender is an active participant; the row is inserted and
  the conversation updated only after that verification has succeeded. For an unauthorized
  sender whose payload carries a text and a timestamp the store accepts, the key is derived
  and the plaintext encrypted before the verification fails, and nothing is written.
\<close>

theorem send_steps_in_order:
  "(\<exists>n. steps (createMessage env rng now db mid c u payload) =
       take n [DeriveKey c, Encrypt, CheckAuthorization c u, InsertMessage mid, UpdateConversation c,
               SelectCreated mid])
   \<and> (InsertMessage mid \<in> set (steps (createMessage env rng now db mid c u payload)) \<longrightarrow>
        isUserAuthorized db c u)
   \<and> (p_text payload \<noteq> None \<and> sql_DateTime2 (new_Date (p_createdAt payload)) \<longrightarrow>
        take 3 (steps (createMessage env rng now db mid c u payload)) =
          [DeriveKey c, Encrypt, CheckAuthorization c u])
   \<and> (\<not> isUserAuthorized db c u \<and> p_text payload \<noteq> None
        \<and> sql_DateTime2 (new_Date (p_createdAt payload)) \<longrightarrow>
        createMessage env rng now db mid c u payload =
          \<lparr>steps = [DeriveKey c, Encrypt, CheckAuthorization c u], store = db,
           outcome = Inl NotAuthorized\<rparr>)"
  using createMessage_steps_take [of env rng now db mid c u payload]
    createMessage_insert_authorized [of mid env rng now db c u payload]
    createMessage_steps_prefix [of payload env rng now db mid c u]
    createMessage_unauthorized [of db c u payload env rng now mid]
  by blast

lemma hi_payload_valid:
  "p_text hi_payload \<noteq> None \<and> sql_DateTime2 (new_Date (p_createdAt hi_payload))"
  by (simp add: hi_payload_def new_Date_def sql_DateTime2_def)

text \<open>
  The hypotheses of C8 are met by \<open>alice\<close>, whose message is inserted, and by \<open>bob\<close>, who
  is refused after the key was derived and the plaintext encrypted.
\<close>

theorem send_steps_in_order_witness:
  "InsertMessage (js ''m1'')
     \<in> set (steps (createMessage None zero_rng 5 demo_db (js ''m1'') (js ''c1'') (js ''alice'') hi_payload))
   \<and> isUserAuthorized demo_db (js ''c1'') (js ''alice'')
   \<and> p_text hi_payload \<noteq> None \<and> sql_DateTime2 (new_Date (p_createdAt hi_payload))
   \<and> take 3 (steps (createMessage None zero_rng 5 demo_db (js ''m1'') (js ''c1'') (js ''alice'') hi_payload))
       = [DeriveKey (js ''c1''), Encrypt, CheckAuthorization (js ''c1'') (js ''alice'')]
   \<and> \<not> isUserAuthorized demo_db (js ''c1'') (js ''bob'')
   \<and> createMessage None zero_rng 5 demo_db (js ''m1'') (js ''c1'') (js ''bob'') hi_payload =
        \<lparr>steps = [DeriveKey (js ''c1''), Encrypt, CheckAuthorization (js ''c1'') (js ''bob'')],
         store = demo_db, outcome = Inl NotAuthorized\<rparr>"
proof -
  obtain plaintext where t: "p_text hi_payload = Some plaintext"
    using hi_payload_valid by blast
  obtain enc where enc: "encryptMessage zero_rng plaintext (getConversationKey None (js ''c1'')) = Inr enc"
    using encryptMessage_conversation_key by blast
  obtain m where "outcome (createMessage None zero_rng 5 demo_db (js ''m1'') (js ''c1'') (js ''alice'') hi_payload) = Inr m"
    using createMessage_authorized [OF alice_authorized demo_db_schema hi_payload_well_formed, of zero_rng None 5]
    by blast
  then have ins: "InsertMessage (js ''m1'')
     \<in> set (steps (createMessage None zero_rng 5 demo_db (js ''m1'') (js ''c1'') (js ''alice'') hi_payload))"
    using hi_payload_valid
    by (auto simp: createMessage_def Let_def t enc send_batch_def alice_authorized
        split: option.splits)
  show ?thesis
    using send_steps_in_order [of None zero_rng 5 demo_db "js ''m1''" "js ''c1''" "js ''alice''" hi_payload]
      send_steps_in_order [of None zero_rng 5 demo_db "js ''m1''" "js ''c1''" "js ''bob''" hi_payload]
      ins hi_payload_valid bob_unauthorized
    by blast
qed

text \<open>
  Claim C8 as stated has no key derivation and no encryption for an unauthorized sender.
  \<open>bob\<close> is no participant of the conversation; his send derives the key and encrypts before
  the authorization check refuses it.
\<close>

theorem unauthorized_send_derives_and_encrypts:
  "\<not> isUserAuthorized demo_db (js ''c1'') (js ''bob'')
   \<and> steps (createMessage None zero_rng 5 demo_db (js ''m1'') (js ''c1'') (js ''bob'') hi_payload)
       = [DeriveKey (js ''c1''), Encrypt, CheckAuthorization (js ''c1'') (js ''bob'')]"
  using createMessage_unauthorized [OF bob_unauthorized, of hi_payload None zero_rng 5 "js ''m1''"]
    bob_unauthorized hi_payload_valid
  by simp

section \<open>Missing fields in a request body (C9)\<close>

lemma post_messages_missing_field:
  assumes "\<not> truthy (p_conversationId (req_body req)) \<or> \<not> truthy (p_text (req_body req))"
  shows "post_messages env rng now db uuid req =
     \<lparr>steps = [], store = db, outcome = Inr \<lparr>res_status = 400, res_json = InvalidMessageFormat\<rparr>\<rparr>"
  using assms by (auto simp: post_messages_def Let_def)

lemma post_messages_missing_createdAt:
  assumes "truthy (p_conversationId (req_body req))" and "truthy (p_text (req_body req))"
    and "p_createdAt (req_body req) = None"
  shows "outcome (post_messages env rng now db uuid req)
       = Inr \<lparr>res_status = 500, res_json = InternalServerError\<rparr>
     \<and> store (post_messages env rng now db uuid req) = db"
proof -
  have "p_text (req_body req) \<noteq> None"
    using assms(2) by (auto simp: truthy_def split: option.splits)
  moreover have "\<not> sql_DateTime2 (new_Date (p_createdAt (req_body req)))"
    by (simp add: assms(3) new_Date_def sql_DateTime2_def)
  ultimately show ?thesis
    using assms(1,2)
    by (simp add: post_messages_def Let_def createMessage_invalid_date message_includes_Not_authorized_def)
qed

text \<open>
  Claim C9, evaluated at a request body that has \<open>conversationId\<close> and \<open>text\<close> and no
  \<open>createdAt\<close>: the route does not answer 400. The body passes the route's check, the
  timestamp \<open>new Date(undefined)\<close> is refused when the insert is submitted, and the route
  answers 500. No message is created.
\<close>

theorem post_without_createdAt_is_500:
  "truthy (p_conversationId (req_body no_createdAt_request))
   \<and> truthy (p_text (req_body no_createdAt_request))
   \<and> p_createdAt (req_body no_createdAt_request) = None
   \<and> outcome (post_messages None zero_rng 5 demo_db (js ''m1'') no_createdAt_request)
       = Inr \<lparr>res_status = 500, res_json = InternalServerError\<rparr>
   \<and> store (post_messages None zero_rng 5 demo_db (js ''m1'') no_createdAt_request) = demo_db"
proof -
  have a: "truthy (p_conversationId (req_body no_createdAt_request))"
    "truthy (p_text (req_body no_createdAt_request))"
    "p_createdAt (req_body no_createdAt_request) = None"
    by (simp_all add: no_createdAt_request_def truthy_def js_def)
  show ?thesis
    using post_messages_missing_createdAt [OF a] a by simp
qed

text \<open>
  At that request the answer differs from the 400 the route gives for a missing
  \<open>conversationId\<close> or \<open>text\<close>.
\<close>

theorem post_without_createdAt_is_not_400:
  "outcome (post_messages None zero_rng 5 demo_db (js ''m1'') no_createdAt_request)
     \<noteq> Inr \<lparr>res_status = 400, res_json = InvalidMessageFormat\<rparr>"
  using post_without_createdAt_is_500 by simp

section \<open>Reconciliation of polled messages (C6)\<close>

lemma by_createdAt_sorted: "sorted (map m_createdAt (by_createdAt ms))"
  by (simp add: by_createdAt_def)

lemma set_by_createdAt: "set (by_createdAt ms) = set ms"
  by (simp add: by_createdAt_def)

lemma length_by_createdAt: "length (by_createdAt ms) = length ms"
  by (simp add: by_createdAt_def)

lemma filter_by_createdAt: "filter P (by_createdAt ms) = by_createdAt (filter P ms)"
  by (simp add: by_createdAt_def filter_sort)

lemma on_new_message_same_id:
  "list_ex (\<lambda>m. m_id m = m_id msg) prev \<Longrightarrow> on_new_message prev msg = prev"
  by (simp add: on_new_message_def)

lemma on_new_message_duplicate:
  "is_duplicate prev msg \<Longrightarrow> on_new_message prev msg = prev"
  by (simp add: on_new_message_def)

lemma on_new_message_inserted:
  "\<not> list_ex (\<lambda>m. m_id m = m_id msg) prev \<Longrightarrow> \<not> is_duplicate prev msg \<Longrightarrow>
   on_new_message prev msg = by_createdAt (prev @ [msg])"
  by (simp add: on_new_message_def)

lemma confirmed_once:
  assumes "\<not> list_ex (\<lambda>m. m_id m = tempId) prev"
    and "\<not> list_ex (\<lambda>m. m_id m = m_id server) prev"
    and "m_id local = tempId"
  shows "filter (\<lambda>m. m_id m = m_id server) (replace_optimistic (add_optimistic prev local) tempId server)
     = [server]"
proof -
  let ?swap = "\<lambda>msg. if m_id msg = tempId then server else msg"
  have prev: "\<forall>m \<in> set prev. m_id m \<noteq> tempId \<and> m_id m \<noteq> m_id server"
    using assms(1,2) by (auto simp: list_ex_iff)
  have swap_filter: "filter (\<lambda>m. m_id m = m_id server) (map ?swap xs)
      = map ?swap (filter (\<lambda>m. m_id (?swap m) = m_id server) xs)" for xs
    by (induction xs) auto
  have "filter (\<lambda>m. m_id (?swap m) = m_id server) (by_createdAt (prev @ [local]))
      = by_createdAt (filter (\<lambda>m. m_id (?swap m) = m_id server) (prev @ [local]))"
    by (rule filter_by_createdAt)
  also have "filter (\<lambda>m. m_id (?swap m) = m_id server) (prev @ [local]) = [local]"
    using prev assms(3) by (auto simp: filter_empty_conv)
  finally have "filter (\<lambda>m. m_id (?swap m) = m_id server) (by_createdAt (prev @ [local])) = [local]"
    by (simp add: by_createdAt_def)
  then have "filter (\<lambda>m. m_id m = m_id server) (map ?swap (by_createdAt (prev @ [local]))) = [server]"
    using assms(3) by (simp add: swap_filter)
  then have "by_createdAt (filter (\<lambda>m. m_id m = m_id server)
      (map ?swap (by_createdAt (prev @ [local])))) = [server]"
    by (simp add: by_createdAt_def)
  then have "filter (\<lambda>m. m_id m = m_id server)
      (by_createdAt (map ?swap (by_createdAt (prev @ [local])))) = [server]"
    by (simp only: filter_by_createdAt)
  then show ?thesis
    by (simp add: replace_optimistic_def add_optimistic_def)
qed

lemma confirmed_mset:
  assumes "\<not> list_ex (\<lambda>m. m_id m = tempId) prev" and "m_id local = tempId"
  shows "mset (replace_optimistic (add_optimistic prev local) tempId server) = mset prev + {#server#}"
proof -
  let ?swap = "\<lambda>msg. if m_id msg = tempId then server else msg"
  have "map ?swap prev = prev"
    using assms(1) by (intro map_idI) (auto simp: list_ex_iff)
  then have "mset (map ?swap (prev @ [local])) = mset prev + {#server#}"
    using assms(2) by simp
  moreover have "mset (replace_optimistic (add_optimistic prev local) tempId server)
      = mset (map ?swap (prev @ [local]))"
    by (simp add: replace_optimistic_def add_optimistic_def by_createdAt_def)
  ultimately show ?thesis
    by simp
qed

lemma confirmed_without_temp:
  assumes "\<not> list_ex (\<lambda>m. m_id m = tempId) prev" and "m_id local = tempId"
    and "m_id server \<noteq> tempId"
  shows "\<not> list_ex (\<lambda>m. m_id m = tempId) (replace_optimistic (add_optimistic prev local) tempId server)"
proof -
  have "set (replace_optimistic (add_optimistic prev local) tempId server) = set prev \<union> {server}"
    using arg_cong [OF confirmed_mset [OF assms(1,2), of server], of set_mset] by simp
  then show ?thesis
    using assms(1,3) by (auto simp: list_ex_iff)
qed

text \<open>
  Claim C6. A message delivered by polling leaves the message sequence unchanged when an
  entry with the same id exists, or when an entry exists with the same conversation, sender
  and text whose creation time is less than 5000 ms away from the incoming one (the code's
  test is \<open>< 5000\<close>). Otherwise the message is inserted, and the sequence is sorted ascending
  by creation time and holds the earlier entries and the new one. After an optimistic send has
  been confirmed by the server, the sequence holds the entries it had before the send and, in
  place of the optimistic entry, the server's message once: one entry more than before the
  send, none under the temporary id, sorted by creation time. A poll that delivers the
  server's message again changes nothing, so the sequence still holds that message exactly
  once.
\<close>

theorem poll_reconciliation:
  "(list_ex (\<lambda>m. m_id m = m_id msg) prev \<longrightarrow> on_new_message prev msg = prev)
   \<and> (list_ex (\<lambda>m. m_conversationId m = m_conversationId msg \<and> m_senderId m = m_senderId msg
                     \<and> m_text m = m_text msg \<and> \<bar>m_createdAt m - m_createdAt msg\<bar> < 5000) prev \<longrightarrow>
        on_new_message prev msg = prev)
   \<and> (\<not> list_ex (\<lambda>m. m_id m = m_id msg) prev
        \<and> \<not> list_ex (\<lambda>m. m_conversationId m = m_conversationId msg \<and> m_senderId m = m_senderId msg
                     \<and> m_text m = m_text msg \<and> \<bar>m_createdAt m - m_createdAt msg\<bar> < 5000) prev \<longrightarrow>
        on_new_message prev msg = sort_key m_createdAt (prev @ [msg])
        \<and> sorted (map m_createdAt (on_new_message prev msg))
        \<and> set (on_new_message prev msg) = set prev \<union> {msg}
        \<and> length (on_new_message prev msg) = length prev + 1)
   \<and> (\<not> list_ex (\<lambda>m. m_id m = tempId) prev \<and> \<not> list_ex (\<lambda>m. m_id m = m_id server) prev
        \<and> m_id local = tempId \<and> m_id server \<noteq> [] \<longrightarrow>
        mset (handleSend_settled (add_optimistic prev local) tempId (Returned (Some server)))
          = mset prev + {#server#}
        \<and> length (handleSend_settled (add_optimistic prev local) tempId (Returned (Some server)))
          = length prev + 1
        \<and> sorted (map m_createdAt
             (handleSend_settled (add_optimistic prev local) tempId (Returned (Some server))))
        \<and> (m_id server \<noteq> tempId \<longrightarrow>
             \<not> list_ex (\<lambda>m. m_id m = tempId)
                 (handleSend_settled (add_optimistic prev local) tempId (Returned (Some server))))
        \<and> filter (\<lambda>m. m_id m = m_id server)
          (handleSend_settled (add_optimistic prev local) tempId (Returned (Some server))) = [server]
        \<and> on_new_message (handleSend_settled (add_optimistic prev local) tempId (Returned (Some server)))
             server
           = handleSend_settled (add_optimistic prev local) tempId (Returned (Some server))
        \<and> mset (on_new_message
                (handleSend_settled (add_optimistic prev local) tempId (Returned (Some server))) server)
           = mset prev + {#server#}
        \<and> filter (\<lambda>m. m_id m = m_id server)
             (on_new_message
                (handleSend_settled (add_optimistic prev local) tempId (Returned (Some server))) server)
           = [server])"
proof (intro conjI impI)
  assume "list_ex (\<lambda>m. m_id m = m_id msg) prev"
  then show "on_new_message prev msg = prev"
    by (rule on_new_message_same_id)
next
  assume "list_ex (\<lambda>m. m_conversationId m = m_conversationId msg \<and> m_senderId m = m_senderId msg
                     \<and> m_text m = m_text msg \<and> \<bar>m_createdAt m - m_createdAt msg\<bar> < 5000) prev"
  then show "on_new_message prev msg = prev"
    by (simp add: on_new_message_duplicate is_duplicate_def)
next
  assume a: "\<not> list_ex (\<lambda>m. m_id m = m_id msg) prev
        \<and> \<not> list_ex (\<lambda>m. m_conversationId m = m_conversationId msg \<and> m_senderId m = m_senderId msg
                     \<and> m_text m = m_text msg \<and> \<bar>m_createdAt m - m_createdAt msg\<bar> < 5000) prev"
  then have e: "on_new_message prev msg = by_createdAt (prev @ [msg])"
    by (simp add: on_new_message_inserted is_duplicate_def)
  show "on_new_message prev msg = sort_key m_createdAt (prev @ [msg])"
    by (simp add: e by_createdAt_def)
  show "sorted (map m_createdAt (on_new_message prev msg))"
    by (simp add: e by_createdAt_sorted)
  show "set (on_new_message prev msg) = set prev \<union> {msg}"
    by (simp add: e set_by_createdAt)
  show "length (on_new_message prev msg) = length prev + 1"
    by (simp add: e length_by_createdAt)
next
  assume a: "\<not> list_ex (\<lambda>m. m_id m = tempId) prev \<and> \<not> list_ex (\<lambda>m. m_id m = m_id server) prev
        \<and> m_id local = tempId \<and> m_id server \<noteq> []"
  let ?confirmed = "handleSend_settled (add_optimistic prev local) tempId (Returned (Some server))"
  have c: "?confirmed = replace_optimistic (add_optimistic prev local) tempId server"
    using a by (simp add: handleSend_settled_def)
  show all: "mset ?confirmed = mset prev + {#server#}"
    using a by (simp add: c confirmed_mset)
  show "length ?confirmed = length prev + 1"
    unfolding c by (simp add: replace_optimistic_def add_optimistic_def length_by_createdAt)
  show "sorted (map m_createdAt ?confirmed)"
    unfolding c by (simp add: replace_optimistic_def by_createdAt_sorted)
  show "\<not> list_ex (\<lambda>m. m_id m = tempId) ?confirmed" if "m_id server \<noteq> tempId"
    using a that by (simp only: c confirmed_without_temp not_False_eq_True)
  show once: "filter (\<lambda>m. m_id m = m_id server) ?confirmed = [server]"
    using a by (simp add: c confirmed_once)
  then have "server \<in> set (filter (\<lambda>m. m_id m = m_id server) ?confirmed)"
    by simp
  then have "list_ex (\<lambda>m. m_id m = m_id server) ?confirmed"
    unfolding list_ex_iff by auto
  then show same: "on_new_message ?confirmed server = ?confirmed"
    by (rule on_new_message_same_id)
  show "mset (on_new_message ?confirmed server) = mset prev + {#server#}"
    by (simp only: same all)
  show "filter (\<lambda>m. m_id m = m_id server) (on_new_message ?confirmed server) = [server]"
    by (simp only: same once)
qed

lemma sample_ids:
  "m_id local_hi = js ''temp-1''" "m_id server_hi = js ''m1''" "m_id later_hello = js ''m2''"
  "js ''m1'' \<noteq> js ''temp-1''" "js ''m2'' \<noteq> js ''temp-1''" "js ''m1'' \<noteq> []"
  "js ''m2'' \<noteq> js ''m1''"
  by (simp_all add: local_hi_def server_hi_def later_hello_def handleSend_optimistic_def js_def
      unit_of_def)

lemma sample_fields:
  "m_conversationId server_hi = m_conversationId local_hi" "m_senderId server_hi = m_senderId local_hi"
  "m_text server_hi = m_text local_hi" "m_createdAt local_hi = 1000" "m_createdAt server_hi = 1200"
  "m_createdAt later_hello = 500" "m_text later_hello \<noteq> m_text local_hi"
  by (simp_all add: local_hi_def server_hi_def later_hello_def handleSend_optimistic_def js_def
      unit_of_def)

lemma sample_confirmed:
  "handleSend_settled (add_optimistic [later_hello] local_hi) (js ''temp-1'') (Returned (Some server_hi))
     = [later_hello, server_hi]"
  using sample_ids(4,5,6,7)
  by (simp add: handleSend_settled_def replace_optimistic_def add_optimistic_def by_createdAt_def
      sample_ids(1,2,3) sample_fields)

text \<open>
  The hypotheses of C6 are met: a poll that delivers the confirmed message again is rejected by
  its id; a poll that delivers the server's copy 200 ms off while the optimistic entry is still
  pending is rejected as a duplicate; a different message is inserted in creation-time order;
  and after the optimistic entry \<open>temp-1\<close>, sent into a sequence that holds the message
  \<open>m2\<close>, is confirmed as \<open>m1\<close>, the sequence is \<open>m2\<close>, \<open>m1\<close>: the optimistic entry is
  gone, and the sequence is the same after the poll delivers \<open>m1\<close> again.
\<close>

theorem poll_reconciliation_witness:
  "list_ex (\<lambda>m. m_id m = m_id server_hi) [server_hi]
   \<and> on_new_message [server_hi] server_hi = [server_hi]
   \<and> list_ex (\<lambda>m. m_conversationId m = m_conversationId server_hi \<and> m_senderId m = m_senderId server_hi
                  \<and> m_text m = m_text server_hi \<and> \<bar>m_createdAt m - m_createdAt server_hi\<bar> < 5000)
         [local_hi]
   \<and> on_new_message [local_hi] server_hi = [local_hi]
   \<and> on_new_message [local_hi] later_hello = [later_hello, local_hi]
   \<and> sorted (map m_createdAt (on_new_message [local_hi] later_hello))
   \<and> \<not> list_ex (\<lambda>m. m_id m = js ''temp-1'') [later_hello]
   \<and> \<not> list_ex (\<lambda>m. m_id m = m_id server_hi) [later_hello]
   \<and> m_id local_hi = js ''temp-1'' \<and> m_id server_hi \<noteq> [] \<and> m_id server_hi \<noteq> js ''temp-1''
   \<and> add_optimistic [later_hello] local_hi = [later_hello, local_hi]
   \<and> handleSend_settled (add_optimistic [later_hello] local_hi) (js ''temp-1'') (Returned (Some server_hi))
       = [later_hello, server_hi]
   \<and> mset (handleSend_settled (add_optimistic [later_hello] local_hi) (js ''temp-1'')
              (Returned (Some server_hi)))
       = mset [later_hello] + {#server_hi#}
   \<and> \<not> list_ex (\<lambda>m. m_id m = js ''temp-1'')
         (handleSend_settled (add_optimistic [later_hello] local_hi) (js ''temp-1'')
            (Returned (Some server_hi)))
   \<and> on_new_message
         (handleSend_settled (add_optimistic [later_hello] local_hi) (js ''temp-1'')
            (Returned (Some server_hi)))
         server_hi
       = [later_hello, server_hi]"
proof -
  have same: "list_ex (\<lambda>m. m_id m = m_id server_hi) [server_hi]"
    by simp
  have dup: "list_ex (\<lambda>m. m_conversationId m = m_conversationId server_hi \<and> m_senderId m = m_senderId server_hi
                  \<and> m_text m = m_text server_hi \<and> \<bar>m_createdAt m - m_createdAt server_hi\<bar> < 5000)
         [local_hi]"
    by (simp add: sample_fields)
  have new: "\<not> list_ex (\<lambda>m. m_id m = m_id later_hello) [local_hi]
        \<and> \<not> list_ex (\<lambda>m. m_conversationId m = m_conversationId later_hello
                     \<and> m_senderId m = m_senderId later_hello
                     \<and> m_text m = m_text later_hello
                     \<and> \<bar>m_createdAt m - m_createdAt later_hello\<bar> < 5000) [local_hi]"
    using sample_ids(5) sample_fields(7) by (simp add: sample_ids(1,3))
  have fresh: "\<not> list_ex (\<lambda>m. m_id m = js ''temp-1'') [later_hello]
        \<and> \<not> list_ex (\<lambda>m. m_id m = m_id server_hi) [later_hello]
        \<and> m_id local_hi = js ''temp-1'' \<and> m_id server_hi \<noteq> []"
    using sample_ids(4,5,6,7) by (simp add: sample_ids(1,2,3))
  have other: "m_id server_hi \<noteq> js ''temp-1''"
    using sample_ids(4) by (simp add: sample_ids(2))
  have order: "sort_key m_createdAt ([local_hi] @ [later_hello]) = [later_hello, local_hi]"
    by (simp add: sample_fields)
  have pending: "add_optimistic [later_hello] local_hi = [later_hello, local_hi]"
    by (simp add: add_optimistic_def by_createdAt_def sample_fields)
  note confirmed =
    poll_reconciliation [of server_hi "[later_hello]" "js ''temp-1''" server_hi local_hi,
      THEN conjunct2, THEN conjunct2, THEN conjunct2, rule_format, OF fresh]
  have c1: "mset (handleSend_settled (add_optimistic [later_hello] local_hi) (js ''temp-1'')
              (Returned (Some server_hi))) = mset [later_hello] + {#server_hi#}"
    using confirmed by blast
  have c2: "\<not> list_ex (\<lambda>m. m_id m = js ''temp-1'')
         (handleSend_settled (add_optimistic [later_hello] local_hi) (js ''temp-1'')
            (Returned (Some server_hi)))"
    using confirmed other by blast
  have c3: "on_new_message
         (handleSend_settled (add_optimistic [later_hello] local_hi) (js ''temp-1'')
            (Returned (Some server_hi))) server_hi
       = handleSend_settled (add_optimistic [later_hello] local_hi) (js ''temp-1'')
            (Returned (Some server_hi))"
    using confirmed by blast
  have polls: "on_new_message [server_hi] server_hi = [server_hi]"
      "on_new_message [local_hi] server_hi = [local_hi]"
      "on_new_message [local_hi] later_hello = [later_hello, local_hi]"
      "sorted (map m_createdAt (on_new_message [local_hi] later_hello))"
    using poll_reconciliation [of server_hi "[server_hi]" "js ''temp-1''" server_hi local_hi]
      poll_reconciliation [of server_hi "[local_hi]" "js ''temp-1''" server_hi local_hi]
      poll_reconciliation [of later_hello "[local_hi]" "js ''temp-1''" server_hi local_hi]
      same dup new order
    by (simp_all add: sample_ids sample_fields)
  have c4: "on_new_message
         (handleSend_settled (add_optimistic [later_hello] local_hi) (js ''temp-1'')
            (Returned (Some server_hi))) server_hi
       = [later_hello, server_hi]"
    using c3 by (simp only: sample_confirmed)
  show ?thesis
    using same dup fresh other pending polls c1 c2 c4 sample_confirmed by blast
qed

end
